theory Spec2Isabelle
  imports Complex_Main "HOL-Library.Sublist"
begin

section \<open>Python values, errors and the operations the code applies to them\<close>

text \<open>
  The protocol definitions are what \<^verbatim>\<open>json.load\<close> gives: strings, numbers, booleans,
  \<^verbatim>\<open>None\<close>, lists and dictionaries. A dictionary is an association list, so that the
  order of \<^verbatim>\<open>items()\<close> is the order of the list; a lookup takes the first entry of a key.
\<close>

datatype json =
    JStr string
  | JInt int
  | JFloat real
  | JBool bool
  | JNull
  | JList "json list"
  | JDict "(string \<times> json) list"

type_synonym pydict = "(string \<times> json) list"

text \<open>The exceptions the code can raise: a missing key, \<^verbatim>\<open>xs[0]\<close> on an empty sequence,
  and an operation on a value of the wrong type.\<close>

datatype error = KeyError string | IndexError | TypeError

definition bnd :: "error + 'a \<Rightarrow> ('a \<Rightarrow> error + 'b) \<Rightarrow> error + 'b" where
  "bnd m f = (case m of Inl e \<Rightarrow> Inl e | Inr x \<Rightarrow> f x)"

text \<open>\<^verbatim>\<open>d[k]\<close> and \<^verbatim>\<open>k in d\<close> on a dictionary.\<close>

definition dict_get :: "pydict \<Rightarrow> string \<Rightarrow> error + json" where
  "dict_get d k = (case map_of d k of None \<Rightarrow> Inl (KeyError k) | Some v \<Rightarrow> Inr v)"

definition dict_has :: "pydict \<Rightarrow> string \<Rightarrow> bool" where
  "dict_has d k = (map_of d k \<noteq> None)"

text \<open>\<^verbatim>\<open>v[k]\<close> with a string key \<open>k\<close> on any value: only a dictionary can be
  subscripted by a string.\<close>

fun getitem :: "json \<Rightarrow> string \<Rightarrow> error + json" where
  "getitem (JDict d) k = dict_get d k"
| "getitem v k = Inl TypeError"

text \<open>\<^verbatim>\<open>k in v\<close> with a string \<open>k\<close>: a key of a dictionary, an element of a list, a
  substring of a string; any other value is not a container.\<close>

fun contains :: "json \<Rightarrow> string \<Rightarrow> error + bool" where
  "contains (JDict d) k = Inr (dict_has d k)"
| "contains (JList xs) k = Inr (JStr k \<in> set xs)"
| "contains (JStr s) k = Inr (sublist k s)"
| "contains v k = Inl TypeError"

text \<open>What a \<^verbatim>\<open>for\<close> loop over a value visits: the elements of a list, the keys of a
  dictionary, the characters of a string.\<close>

fun iter :: "json \<Rightarrow> error + json list" where
  "iter (JList xs) = Inr xs"
| "iter (JDict d) = Inr (map (\<lambda>kv. JStr (fst kv)) d)"
| "iter (JStr s) = Inr (map (\<lambda>c. JStr [c]) s)"
| "iter v = Inl TypeError"

text \<open>A loop whose body can raise: the first error ends it.\<close>

fun foldE :: "('s \<Rightarrow> 'a \<Rightarrow> error + 's) \<Rightarrow> 's \<Rightarrow> 'a list \<Rightarrow> error + 's" where
  "foldE f s [] = Inr s"
| "foldE f s (x # xs) = bnd (f s x) (\<lambda>s'. foldE f s' xs)"

text \<open>
  An f-string field \<^verbatim>\<open>{v}\<close>: a string is inserted as it is; what Python prints for any
  other value (the digits of a float, the \<^verbatim>\<open>repr\<close> of a list) is the parameter
  \<open>fmt\<close> of the model, so every result below holds whatever that text is.
\<close>

definition py_str :: "(json \<Rightarrow> string) \<Rightarrow> json \<Rightarrow> string" where
  "py_str fmt v = (case v of JStr s \<Rightarrow> s | _ \<Rightarrow> fmt v)"

text \<open>The counters are integers of the program itself; these are their decimal digits.\<close>

definition digit_char :: "nat \<Rightarrow> char" where
  "digit_char d = ''0123456789'' ! d"

fun str_nat :: "nat \<Rightarrow> string" where
  "str_nat n = (if n < 10 then [digit_char n] else str_nat (n div 10) @ [digit_char (n mod 10)])"

declare str_nat.simps [simp del]

definition str_int :: "int \<Rightarrow> string" where
  "str_int i = (if i < 0 then ''-'' @ str_nat (nat (- i)) else str_nat (nat i))"

text \<open>\<^verbatim>\<open>s.split(", ")\<close>: the text is cut at each occurrence of the separator, found from
  left to right without overlap. \<open>acc\<close> is the piece read so far.\<close>

fun split_from :: "string \<Rightarrow> string \<Rightarrow> string list" where
  "split_from acc [] = [acc]"
| "split_from acc [c] = [acc @ [c]]"
| "split_from acc (c # d # cs) =
     (if c = CHR '','' \<and> d = CHR '' '' then acc # split_from [] cs
      else split_from (acc @ [c]) (d # cs))"

definition split_comma_space :: "string \<Rightarrow> string list" where
  "split_comma_space s = split_from [] s"

section \<open>The state of \<^verbatim>\<open>HocStimuliCreator\<close>\<close>

record hoc_stimuli_creator =
  apical_point_isec :: int
  n_stims :: nat
  max_steps :: nat
  reset_step_stimuli :: string
  init_step_stimuli :: string
  stims_hoc :: string
  save_recs :: string
  extra_recs_vars :: string
  extra_recs :: string

section \<open>The text written into the scripts\<close>

text \<open>
  Each definition below is one string literal of \<^verbatim>\<open>create_hoc_tools.py\<close>, character for
  character: a triple-quoted literal starts with the line break after its opening quotes
  and ends with the indentation before its closing quotes. The arguments are the texts
  of the fields between braces.
\<close>

text \<open>\<^verbatim>\<open>add_extra_recs\<close>, the three kinds of extra recording.\<close>

definition hoc_nrnseclistcomp :: "string \<Rightarrow> string \<Rightarrow> string \<Rightarrow> string \<Rightarrow> string \<Rightarrow> string" where
  "hoc_nrnseclistcomp name seclist_name sec_index var comp_x =
     ''\<newline>'' @
     ''                        '' @ name @ '' = new Vector()\<newline>'' @
     ''                        cell.'' @ seclist_name @ ''['' @ sec_index @ ''] '' @ name @ ''.record(&'' @ var @ ''('' @ comp_x @ ''), 0.1)\<newline>'' @
     ''                    ''"

definition hoc_somadistance :: "string \<Rightarrow> string \<Rightarrow> string \<Rightarrow> string \<Rightarrow> string" where
  "hoc_somadistance name seclist_name somadistance var =
     ''\<newline>'' @
     ''                        '' @ name @ '' = new Vector()\<newline>'' @
     ''                        secref = find_isec_at_soma_distance(cell.'' @ seclist_name @ '', '' @ somadistance @ '')\<newline>'' @
     ''                        comp_x = find_comp_x_at_soma_distance(secref, '' @ somadistance @ '')\<newline>'' @
     ''\<newline>'' @
     ''                        secref.sec '' @ name @ ''.record(&'' @ var @ ''(comp_x), 0.1)\<newline>'' @
     ''                    ''"

definition hoc_somadistanceapic :: "string \<Rightarrow> string \<Rightarrow> string \<Rightarrow> string \<Rightarrow> string" where
  "hoc_somadistanceapic name apical somadistance var =
     ''\<newline>'' @
     ''                        '' @ name @ '' = new Vector()\<newline>'' @
     ''                        apical_branch = get_apical_branch('' @ apical @ '')\<newline>'' @
     ''                        secref = find_isec_at_soma_distance(apical_branch, '' @ somadistance @ '')\<newline>'' @
     ''                        comp_x = find_comp_x_at_soma_distance(secref, '' @ somadistance @ '')\<newline>'' @
     ''\<newline>'' @
     ''                        secref.sec '' @ name @ ''.record(&'' @ var @ ''(comp_x), 0.1)\<newline>'' @
     ''                    ''"

text \<open>\<^verbatim>\<open>add_save_recordings_hoc\<close>: the opening with the soma trace, one extra recording,
  the closing brace.\<close>

definition hoc_save_open :: "string \<Rightarrow> string \<Rightarrow> string \<Rightarrow> string" where
  "hoc_save_open n mtype prot_name =
     ''\<newline>'' @
     ''            if (stim_number == '' @ n @ '') {\<newline>'' @
     ''                sprint(fpath.s, \"hoc_recordings/'' @ mtype @ ''.'' @ prot_name @ ''.soma.v.dat\")\<newline>'' @
     ''                timevoltage = new Matrix(time.size(), 2)\<newline>'' @
     ''                timevoltage.setcol(0, time)\<newline>'' @
     ''                timevoltage.setcol(1, voltage)\<newline>'' @
     ''                write_output_file(fpath, timevoltage)\<newline>'' @
     ''        ''"

definition hoc_save_extra :: "string \<Rightarrow> string \<Rightarrow> string \<Rightarrow> string \<Rightarrow> string" where
  "hoc_save_extra mtype prot_name name var =
     ''\<newline>'' @
     ''                    sprint(fpath.s, \"hoc_recordings/'' @ mtype @ ''.'' @ prot_name @ ''.'' @ name @ ''.'' @ var @ ''.dat\")\<newline>'' @
     ''                    timevoltage = new Matrix(time.size(), 2)\<newline>'' @
     ''                    timevoltage.setcol(0, time)\<newline>'' @
     ''                    timevoltage.setcol(1, '' @ name @ '')\<newline>'' @
     ''                    write_output_file(fpath, timevoltage)\<newline>'' @
     ''                ''"

definition hoc_block_close :: string where
  "hoc_block_close =
     ''\<newline>'' @
     ''            }\<newline>'' @
     ''        ''"

text \<open>\<^verbatim>\<open>get_step_hoc\<close> and \<^verbatim>\<open>get_ramp_hoc\<close>: the holding clamp, one step, the ramp.\<close>

definition hoc_holding :: "string \<Rightarrow> string \<Rightarrow> string \<Rightarrow> string" where
  "hoc_holding duration delay amp =
     ''\<newline>'' @
     ''                holding_stimulus = new IClamp(0.5)\<newline>'' @
     ''                holding_stimulus.dur = '' @ duration @ ''\<newline>'' @
     ''                holding_stimulus.del = '' @ delay @ ''\<newline>'' @
     ''                holding_stimulus.amp = '' @ amp @ ''\<newline>'' @
     ''\<newline>'' @
     ''                cell.soma holding_stimulus\<newline>'' @
     ''            ''"

definition hoc_step :: "string \<Rightarrow> string \<Rightarrow> string \<Rightarrow> string \<Rightarrow> string" where
  "hoc_step i duration delay amp =
     ''\<newline>'' @
     ''                step_stimulus_'' @ i @ '' = new IClamp(0.5)\<newline>'' @
     ''                step_stimulus_'' @ i @ ''.dur = '' @ duration @ ''\<newline>'' @
     ''                step_stimulus_'' @ i @ ''.del = '' @ delay @ ''\<newline>'' @
     ''                step_stimulus_'' @ i @ ''.amp = '' @ amp @ ''\<newline>'' @
     ''\<newline>'' @
     ''                cell.soma step_stimulus_'' @ i @ ''\<newline>'' @
     ''            ''"

definition hoc_ramp_vectors :: "string \<Rightarrow> string \<Rightarrow> string \<Rightarrow> string \<Rightarrow> string \<Rightarrow> string" where
  "hoc_ramp_vectors delay amplitude_start duration amplitude_end total_duration =
     ''\<newline>'' @
     ''            ramp_times = new Vector()\<newline>'' @
     ''            ramp_amps = new Vector()\<newline>'' @
     ''\<newline>'' @
     ''            ramp_times.append(0.0)\<newline>'' @
     ''            ramp_amps.append(0.0)\<newline>'' @
     ''\<newline>'' @
     ''            ramp_times.append('' @ delay @ '')\<newline>'' @
     ''            ramp_amps.append(0.0)\<newline>'' @
     ''\<newline>'' @
     ''            ramp_times.append('' @ delay @ '')\<newline>'' @
     ''            ramp_amps.append('' @ amplitude_start @ '')\<newline>'' @
     ''\<newline>'' @
     ''            ramp_times.append('' @ delay @ '' + '' @ duration @ '')\<newline>'' @
     ''            ramp_amps.append('' @ amplitude_end @ '')\<newline>'' @
     ''\<newline>'' @
     ''            ramp_times.append('' @ delay @ '' + '' @ duration @ '')\<newline>'' @
     ''            ramp_amps.append(0.0)\<newline>'' @
     ''\<newline>'' @
     ''            ramp_times.append('' @ total_duration @ '')\<newline>'' @
     ''            ramp_amps.append(0.0)\<newline>'' @
     ''        ''"

definition hoc_ramp_stimulus :: "string \<Rightarrow> string" where
  "hoc_ramp_stimulus totduration =
     ''\<newline>'' @
     ''            ramp_stimulus = new IClamp(0.5)\<newline>'' @
     ''            ramp_stimulus.dur = '' @ totduration @ ''\<newline>'' @
     ''\<newline>'' @
     ''            ramp_amps.play(&ramp_stimulus.amp, ramp_times, 1)\<newline>'' @
     ''\<newline>'' @
     ''            cell.soma ramp_stimulus\<newline>'' @
     ''        ''"

text \<open>\<^verbatim>\<open>get_vecstim_hoc\<close> and \<^verbatim>\<open>get_netstim_hoc\<close>: the template
  \<^verbatim>\<open>({mode},{t0},{tf},{itv},{n_spike},{noise},{seed})\<close> of \<^verbatim>\<open>format\<close>.\<close>

definition hoc_netcons_args :: "string \<Rightarrow> string \<Rightarrow> string \<Rightarrow> string \<Rightarrow> string \<Rightarrow> string \<Rightarrow> string \<Rightarrow> string" where
  "hoc_netcons_args mode t0 tf itv n_spike noise seed =
     ''('' @ mode @ '','' @ t0 @ '','' @ tf @ '','' @ itv @ '','' @ n_spike @ '','' @ noise @ '','' @ seed @ '')''"

text \<open>\<^verbatim>\<open>get_stim_hoc\<close>, \<^verbatim>\<open>get_reset_step\<close> and \<^verbatim>\<open>get_init_step\<close>.\<close>

definition hoc_stim_open :: "string \<Rightarrow> string" where
  "hoc_stim_open n =
     ''\<newline>'' @
     ''            if (stim_number == '' @ n @ '') {\<newline>'' @
     ''        ''"

definition hoc_reset_step :: "string \<Rightarrow> string" where
  "hoc_reset_step i =
     ''\<newline>'' @
     ''                step_stimulus_'' @ i @ '' = new IClamp(0.5)\<newline>'' @
     ''                step_stimulus_'' @ i @ ''.dur = 0.0\<newline>'' @
     ''                step_stimulus_'' @ i @ ''.del = 0.0\<newline>'' @
     ''                step_stimulus_'' @ i @ ''.amp = 0.0\<newline>'' @
     ''\<newline>'' @
     ''                cell.soma step_stimulus_'' @ i @ ''\<newline>'' @
     ''            ''"

definition hoc_init_step :: "string \<Rightarrow> string" where
  "hoc_init_step i =
     ''\<newline>'' @
     ''                objref step_stimulus_'' @ i @ ''\<newline>'' @
     ''            ''"

section \<open>The methods of \<^verbatim>\<open>HocStimuliCreator\<close>\<close>

text \<open>
  A method that changes \<^verbatim>\<open>self\<close> takes the state and returns the new one; a method
  that can raise returns \<open>Inl\<close> of the error. The label \<open>mtype\<close> and the protocol
  names are strings, and every protocol is a dictionary.
\<close>

subsection \<open>\<^verbatim>\<open>add_extra_recs\<close>\<close>

text \<open>\<^verbatim>\<open>name in names\<close> for a list of strings: only a string is equal to a string.\<close>

definition name_in :: "json \<Rightarrow> string list \<Rightarrow> bool" where
  "name_in name names = (name \<in> set (map JStr names))"

text \<open>The body of the loop of \<^verbatim>\<open>add_extra_recs\<close>, for one entry.\<close>

definition add_extra_rec :: "(json \<Rightarrow> string) \<Rightarrow> hoc_stimuli_creator \<Rightarrow> json \<Rightarrow> error + hoc_stimuli_creator" where
  "add_extra_rec fmt s extra_rec =
     bnd (getitem extra_rec ''name'') (\<lambda>name.
     bnd (getitem extra_rec ''seclist_name'') (\<lambda>seclist_name.
     bnd (getitem extra_rec ''var'') (\<lambda>var.
       if \<not> name_in name (split_comma_space (extra_recs_vars s)) then
         (let s1 = s\<lparr>extra_recs_vars := extra_recs_vars s @ '', '' @ py_str fmt name\<rparr> in
          bnd (getitem extra_rec ''type'') (\<lambda>ty.
            if ty = JStr ''nrnseclistcomp'' then
              bnd (getitem extra_rec ''sec_index'') (\<lambda>sec_index.
              bnd (getitem extra_rec ''comp_x'') (\<lambda>comp_x.
                Inr (s1\<lparr>extra_recs := extra_recs s1 @
                  hoc_nrnseclistcomp (py_str fmt name) (py_str fmt seclist_name)
                    (py_str fmt sec_index) (py_str fmt var) (py_str fmt comp_x)\<rparr>)))
            else if ty = JStr ''somadistance'' then
              bnd (getitem extra_rec ''somadistance'') (\<lambda>somadistance.
                Inr (s1\<lparr>extra_recs := extra_recs s1 @
                  hoc_somadistance (py_str fmt name) (py_str fmt seclist_name)
                    (py_str fmt somadistance) (py_str fmt var)\<rparr>))
            else if ty = JStr ''somadistanceapic'' then
              bnd (getitem extra_rec ''somadistance'') (\<lambda>somadistance.
                Inr (s1\<lparr>extra_recs := extra_recs s1 @
                  hoc_somadistanceapic (py_str fmt name) (str_int (apical_point_isec s1))
                    (py_str fmt somadistance) (py_str fmt var)\<rparr>))
            else Inr s1))
       else Inr s)))"

definition add_extra_recs :: "(json \<Rightarrow> string) \<Rightarrow> hoc_stimuli_creator \<Rightarrow> json \<Rightarrow> error + hoc_stimuli_creator" where
  "add_extra_recs fmt s recs = bnd (iter recs) (foldE (add_extra_rec fmt) s)"

subsection \<open>\<^verbatim>\<open>add_save_recordings_hoc\<close>\<close>

definition save_extra_rec :: "(json \<Rightarrow> string) \<Rightarrow> string \<Rightarrow> string \<Rightarrow> hoc_stimuli_creator \<Rightarrow> json \<Rightarrow> error + hoc_stimuli_creator" where
  "save_extra_rec fmt mtype prot_name s extra_rec =
     bnd (getitem extra_rec ''var'') (\<lambda>var.
     bnd (getitem extra_rec ''name'') (\<lambda>name.
       Inr (s\<lparr>save_recs := save_recs s @
         hoc_save_extra mtype prot_name (py_str fmt name) (py_str fmt var)\<rparr>)))"

definition add_save_recordings_hoc :: "(json \<Rightarrow> string) \<Rightarrow> hoc_stimuli_creator \<Rightarrow> string \<Rightarrow> string \<Rightarrow> pydict \<Rightarrow> error + hoc_stimuli_creator" where
  "add_save_recordings_hoc fmt s mtype prot_name prot =
     (let s1 = s\<lparr>save_recs := save_recs s @ hoc_save_open (str_nat (n_stims s)) mtype prot_name\<rparr> in
      bnd (if dict_has prot ''extra_recordings'' then
             bnd (dict_get prot ''extra_recordings'') (\<lambda>recs.
             bnd (iter recs) (foldE (save_extra_rec fmt mtype prot_name) s1))
           else Inr s1) (\<lambda>s2.
        Inr (s2\<lparr>save_recs := save_recs s2 @ hoc_block_close\<rparr>)))"

subsection \<open>\<^verbatim>\<open>get_step_hoc\<close> and \<^verbatim>\<open>get_ramp_hoc\<close>\<close>

text \<open>Both start with the same lines: the holding clamp, when \<^verbatim>\<open>"holding" in prot["stimuli"]\<close>.\<close>

definition holding_hoc :: "(json \<Rightarrow> string) \<Rightarrow> json \<Rightarrow> error + string" where
  "holding_hoc fmt stimuli =
     bnd (contains stimuli ''holding'') (\<lambda>has_holding.
       if has_holding then
         bnd (getitem stimuli ''holding'') (\<lambda>hold.
         bnd (getitem hold ''duration'') (\<lambda>duration.
         bnd (getitem hold ''delay'') (\<lambda>delay.
         bnd (getitem hold ''amp'') (\<lambda>amp.
           Inr (hoc_holding (py_str fmt duration) (py_str fmt delay) (py_str fmt amp))))))
       else Inr [])"

text \<open>The body of the loop over \<^verbatim>\<open>enumerate(step_definitions)\<close>: the text so far and the
  state, which holds \<^verbatim>\<open>max_steps\<close>.\<close>

definition step_body :: "(json \<Rightarrow> string) \<Rightarrow> string \<times> hoc_stimuli_creator \<Rightarrow> nat \<times> json \<Rightarrow> error + string \<times> hoc_stimuli_creator" where
  "step_body fmt acc istep =
     (case acc of (step_hoc, s) \<Rightarrow> case istep of (i, step) \<Rightarrow>
       (let s' = (if i + 1 > max_steps s then s\<lparr>max_steps := i + 1\<rparr> else s) in
        bnd (getitem step ''duration'') (\<lambda>duration.
        bnd (getitem step ''delay'') (\<lambda>delay.
        bnd (getitem step ''amp'') (\<lambda>amp.
          Inr (step_hoc @ hoc_step (str_nat i) (py_str fmt duration) (py_str fmt delay) (py_str fmt amp),
               s'))))))"

definition get_step_hoc :: "(json \<Rightarrow> string) \<Rightarrow> hoc_stimuli_creator \<Rightarrow> pydict \<Rightarrow> error + string \<times> hoc_stimuli_creator" where
  "get_step_hoc fmt s prot =
     bnd (dict_get prot ''stimuli'') (\<lambda>stimuli.
     bnd (holding_hoc fmt stimuli) (\<lambda>step_hoc.
     bnd (getitem stimuli ''step'') (\<lambda>step_definitions.
     bnd (case step_definitions of JDict d \<Rightarrow> Inr [step_definitions] | _ \<Rightarrow> iter step_definitions)
       (\<lambda>steps.
     bnd (foldE (step_body fmt) (step_hoc, s) (enumerate 0 steps)) (\<lambda>acc.
     bnd (case steps of [] \<Rightarrow> Inl IndexError | step # _ \<Rightarrow> getitem step ''totduration'')
       (\<lambda>totduration.
       Inr (fst acc @ ''tstop='' @ py_str fmt totduration, snd acc)))))))"

definition get_ramp_hoc :: "(json \<Rightarrow> string) \<Rightarrow> pydict \<Rightarrow> error + string" where
  "get_ramp_hoc fmt prot =
     bnd (dict_get prot ''stimuli'') (\<lambda>stimuli.
     bnd (holding_hoc fmt stimuli) (\<lambda>ramp_hoc.
     bnd (getitem stimuli ''ramp'') (\<lambda>ramp_definition.
     bnd (getitem ramp_definition ''ramp_delay'') (\<lambda>delay.
     bnd (getitem ramp_definition ''ramp_amplitude_start'') (\<lambda>amplitude_start.
     bnd (getitem ramp_definition ''ramp_duration'') (\<lambda>duration.
     bnd (getitem ramp_definition ''ramp_amplitude_end'') (\<lambda>amplitude_end.
     bnd (getitem ramp_definition ''totduration'') (\<lambda>total_duration.
       Inr (ramp_hoc @
            hoc_ramp_vectors (py_str fmt delay) (py_str fmt amplitude_start) (py_str fmt duration)
              (py_str fmt amplitude_end) (py_str fmt total_duration) @
            hoc_ramp_stimulus (py_str fmt total_duration) @
            ''tstop='' @ py_str fmt total_duration)))))))))"

subsection \<open>\<^verbatim>\<open>get_vecstim_hoc\<close> and \<^verbatim>\<open>get_netstim_hoc\<close>\<close>

definition get_vecstim_hoc :: "(json \<Rightarrow> string) \<Rightarrow> pydict \<Rightarrow> error + string" where
  "get_vecstim_hoc fmt prot =
     bnd (dict_get prot ''stimuli'') (\<lambda>stim.
     bnd (getitem stim ''syn_stop'') (\<lambda>syn_stop.
     bnd (getitem stim ''syn_start'') (\<lambda>syn_start.
     bnd (getitem stim ''syn_stim_seed'') (\<lambda>syn_stim_seed.
       Inr (''tstop='' @ py_str fmt syn_stop @ ''\<newline>'' @
            ''cell.synapses.create_netcons '' @
            hoc_netcons_args (str_nat 0) (py_str fmt syn_start) (py_str fmt syn_stop)
              (str_nat 0) (str_nat 0) (str_nat 0) (py_str fmt syn_stim_seed))))))"

definition get_netstim_hoc :: "(json \<Rightarrow> string) \<Rightarrow> pydict \<Rightarrow> error + string" where
  "get_netstim_hoc fmt prot =
     bnd (dict_get prot ''stimuli'') (\<lambda>stim.
     bnd (getitem stim ''syn_stop'') (\<lambda>syn_stop.
     bnd (getitem stim ''syn_start'') (\<lambda>syn_start.
     bnd (getitem stim ''syn_interval'') (\<lambda>syn_interval.
     bnd (getitem stim ''syn_nmb_of_spikes'') (\<lambda>syn_nmb_of_spikes.
     bnd (getitem stim ''syn_noise'') (\<lambda>syn_noise.
       Inr (''tstop='' @ py_str fmt syn_stop @ ''\<newline>'' @
            ''cell.synapses.create_netcons'' @
            hoc_netcons_args (str_nat 1) (py_str fmt syn_start) (py_str fmt syn_stop)
              (py_str fmt syn_interval) (py_str fmt syn_nmb_of_spikes) (py_str fmt syn_noise)
              (str_nat 0))))))))"

subsection \<open>\<^verbatim>\<open>get_stim_hoc\<close>, \<^verbatim>\<open>get_reset_step\<close>, \<^verbatim>\<open>get_init_step\<close>\<close>

text \<open>\<open>fct\<close> is a method of the object (\<^verbatim>\<open>get_step_hoc\<close>, which sets
  \<^verbatim>\<open>max_steps\<close>) or a static method, which leaves the state as it is.\<close>

definition static :: "(pydict \<Rightarrow> error + string) \<Rightarrow> hoc_stimuli_creator \<Rightarrow> pydict \<Rightarrow> error + string \<times> hoc_stimuli_creator" where
  "static f s prot = bnd (f prot) (\<lambda>hoc. Inr (hoc, s))"

definition get_stim_hoc :: "hoc_stimuli_creator \<Rightarrow> (hoc_stimuli_creator \<Rightarrow> pydict \<Rightarrow> error + string \<times> hoc_stimuli_creator) \<Rightarrow> pydict \<Rightarrow> error + string \<times> hoc_stimuli_creator" where
  "get_stim_hoc s fct prot =
     bnd (fct s prot) (\<lambda>r.
       Inr (hoc_stim_open (str_nat (n_stims s)) @ fst r @ hoc_block_close, snd r))"

definition get_reset_step :: "hoc_stimuli_creator \<Rightarrow> hoc_stimuli_creator" where
  "get_reset_step s =
     fold (\<lambda>i s. s\<lparr>reset_step_stimuli := reset_step_stimuli s @ hoc_reset_step (str_nat i)\<rparr>)
       [0..<max (max_steps s) 1] s"

definition get_init_step :: "hoc_stimuli_creator \<Rightarrow> hoc_stimuli_creator" where
  "get_init_step s =
     fold (\<lambda>i s. s\<lparr>init_step_stimuli := init_step_stimuli s @ hoc_init_step (str_nat i)\<rparr>)
       [0..<max (max_steps s) 1] s"

subsection \<open>\<^verbatim>\<open>__init__\<close>\<close>

text \<open>\<^verbatim>\<open>"type" in prot and prot["type"] == t\<close>.\<close>

definition type_is :: "pydict \<Rightarrow> string \<Rightarrow> bool" where
  "type_is prot t = (dict_has prot ''type'' \<and> dict_get prot ''type'' = Inr (JStr t))"

text \<open>The three statements that each of the four branches runs, with its own \<open>fct\<close>:
  count the stimulus, append its block, append its recordings.\<close>

definition add_stim :: "(json \<Rightarrow> string) \<Rightarrow> string \<Rightarrow> hoc_stimuli_creator \<Rightarrow> (hoc_stimuli_creator \<Rightarrow> pydict \<Rightarrow> error + string \<times> hoc_stimuli_creator) \<Rightarrow> string \<Rightarrow> pydict \<Rightarrow> error + hoc_stimuli_creator" where
  "add_stim fmt mtype s fct prot_name prot =
     (let s1 = s\<lparr>n_stims := n_stims s + 1\<rparr> in
      bnd (get_stim_hoc s1 fct prot) (\<lambda>r.
        add_save_recordings_hoc fmt ((snd r)\<lparr>stims_hoc := stims_hoc (snd r) @ fst r\<rparr>)
          mtype prot_name prot))"

text \<open>The body of the loop over \<^verbatim>\<open>prot_definitions.items()\<close>.\<close>

definition init_body :: "(json \<Rightarrow> string) \<Rightarrow> string \<Rightarrow> bool \<Rightarrow> hoc_stimuli_creator \<Rightarrow> string \<times> pydict \<Rightarrow> error + hoc_stimuli_creator" where
  "init_body fmt mtype add_synapses s item =
     (case item of (prot_name, prot) \<Rightarrow>
       bnd (if dict_has prot ''extra_recordings'' then
              bnd (dict_get prot ''extra_recordings'') (add_extra_recs fmt s)
            else Inr s) (\<lambda>s1.
         if type_is prot ''StepProtocol'' then
           add_stim fmt mtype s1 (get_step_hoc fmt) prot_name prot
         else if type_is prot ''RampProtocol'' then
           add_stim fmt mtype s1 (static (get_ramp_hoc fmt)) prot_name prot
         else if type_is prot ''Vecstim'' \<and> add_synapses then
           add_stim fmt mtype s1 (static (get_vecstim_hoc fmt)) prot_name prot
         else if type_is prot ''Netstim'' \<and> add_synapses then
           add_stim fmt mtype s1 (static (get_netstim_hoc fmt)) prot_name prot
         else Inr s1))"

definition init_state :: "int \<Rightarrow> hoc_stimuli_creator" where
  "init_state apical =
     \<lparr>apical_point_isec = apical, n_stims = 0, max_steps = 0,
      reset_step_stimuli = [], init_step_stimuli = [], stims_hoc = [], save_recs = [],
      extra_recs_vars = [], extra_recs = []\<rparr>"

definition HocStimuliCreator :: "(json \<Rightarrow> string) \<Rightarrow> (string \<times> pydict) list \<Rightarrow> string \<Rightarrow> bool \<Rightarrow> int \<Rightarrow> error + hoc_stimuli_creator" where
  "HocStimuliCreator fmt prot_definitions mtype add_synapses apical =
     bnd (foldE (init_body fmt mtype add_synapses) (init_state apical) prot_definitions) (\<lambda>s.
       Inr (get_init_step (get_reset_step s)))"

section \<open>Notions used to state the properties\<close>

text \<open>A call with positional arguments, as hoc reads it: the arguments between
  parentheses, separated by commas.\<close>

fun comma_sep :: "string list \<Rightarrow> string" where
  "comma_sep [] = []"
| "comma_sep [x] = x"
| "comma_sep (x # y # ys) = x @ '','' @ comma_sep (y # ys)"

definition positional_call :: "string list \<Rightarrow> string" where
  "positional_call args = ''('' @ comma_sep args @ '')''"

text \<open>A sample of \<open>fmt\<close> for the examples: an integer prints as its decimal digits, and
  the two floats of the examples as Python prints them.\<close>

definition str_number :: "json \<Rightarrow> string" where
  "str_number v =
     (case v of
        JInt i \<Rightarrow> str_int i
      | JFloat x \<Rightarrow> (if x = 1 / 10 then ''0.1'' else if x = 1 / 2 then ''0.5'' else [])
      | _ \<Rightarrow> [])"

definition vecstim_example :: pydict where
  "vecstim_example =
     [(''type'', JStr ''Vecstim''),
      (''stimuli'', JDict [(''syn_start'', JInt 50), (''syn_stop'', JInt 3000),
                           (''syn_stim_seed'', JInt 7)])]"

definition netstim_example :: pydict where
  "netstim_example =
     [(''type'', JStr ''Netstim''),
      (''stimuli'', JDict [(''syn_start'', JInt 50), (''syn_stop'', JInt 3000),
                           (''syn_interval'', JInt 25), (''syn_nmb_of_spikes'', JInt 4),
                           (''syn_noise'', JInt 0)])]"




definition ramp_example :: pydict where
  "ramp_example =
     [(''type'', JStr ''RampProtocol''),
      (''stimuli'', JDict [(''ramp'', JDict
         [(''ramp_delay'', JInt 10), (''ramp_duration'', JInt 20),
          (''ramp_amplitude_start'', JFloat (1 / 10)), (''ramp_amplitude_end'', JFloat (1 / 2)),
          (''totduration'', JInt 50)])])]"

text \<open>The recordings: the two paths of the file-path convention, the five lines that
  write one trace to a path, the guard of a block, and the entries of a protocol's
  \<^verbatim>\<open>extra_recordings\<close> (none when the key is absent).\<close>

definition soma_path :: "string \<Rightarrow> string \<Rightarrow> string" where
  "soma_path cell_type protocol_name =
     ''hoc_recordings/'' @ cell_type @ ''.'' @ protocol_name @ ''.soma.v.dat''"

definition extra_path :: "string \<Rightarrow> string \<Rightarrow> string \<Rightarrow> string \<Rightarrow> string" where
  "extra_path cell_type protocol_name recording_name var =
     ''hoc_recordings/'' @ cell_type @ ''.'' @ protocol_name @ ''.'' @ recording_name @ ''.'' @
     var @ ''.dat''"

definition write_trace :: "string \<Rightarrow> string \<Rightarrow> string \<Rightarrow> string" where
  "write_trace indent path column =
     indent @ ''sprint(fpath.s, \"'' @ path @ ''\")\<newline>'' @
     indent @ ''timevoltage = new Matrix(time.size(), 2)\<newline>'' @
     indent @ ''timevoltage.setcol(0, time)\<newline>'' @
     indent @ ''timevoltage.setcol(1, '' @ column @ '')\<newline>'' @
     indent @ ''write_output_file(fpath, timevoltage)\<newline>''"

definition guard_open :: "nat \<Rightarrow> string" where
  "guard_open n = ''\<newline>'' @ ''            if (stim_number == '' @ str_nat n @ '') {\<newline>''"

definition extra_recordings_of :: "pydict \<Rightarrow> json list" where
  "extra_recordings_of prot =
     (if dict_has prot ''extra_recordings'' then
        (case bnd (dict_get prot ''extra_recordings'') iter of Inr xs \<Rightarrow> xs | Inl e \<Rightarrow> [])
      else [])"

definition has_names_vars :: "json list \<Rightarrow> (json \<times> json) list \<Rightarrow> bool" where
  "has_names_vars entries nvs =
     (map (\<lambda>e. (getitem e ''name'', getitem e ''var'')) entries =
      map (\<lambda>nv. (Inr (fst nv), Inr (snd nv))) nvs)"

definition save_extra_text :: "(json \<Rightarrow> string) \<Rightarrow> string \<Rightarrow> string \<Rightarrow> json \<times> json \<Rightarrow> string" where
  "save_extra_text fmt cell_type protocol_name nv =
     ''\<newline>'' @
     write_trace ''                    ''
       (extra_path cell_type protocol_name (py_str fmt (fst nv)) (py_str fmt (snd nv)))
       (py_str fmt (fst nv)) @
     ''                ''"

definition save_block :: "(json \<Rightarrow> string) \<Rightarrow> nat \<Rightarrow> string \<Rightarrow> string \<Rightarrow> (json \<times> json) list \<Rightarrow> string" where
  "save_block fmt n cell_type protocol_name nvs =
     guard_open n @
     write_trace ''                '' (soma_path cell_type protocol_name) ''voltage'' @
     ''        '' @
     concat (map (save_extra_text fmt cell_type protocol_name) nvs) @
     hoc_block_close"

text \<open>Sample protocols.\<close>

definition dend_recording :: json where
  "dend_recording =
     JDict [(''name'', JStr ''dend1''), (''seclist_name'', JStr ''apical''), (''var'', JStr ''v''),
            (''type'', JStr ''somadistance''), (''somadistance'', JInt 100)]"

definition cai_recording :: json where
  "cai_recording =
     JDict [(''name'', JStr ''soma_cai''), (''seclist_name'', JStr ''somatic''),
            (''var'', JStr ''cai''), (''type'', JStr ''nrnseclistcomp''),
            (''sec_index'', JInt 0), (''comp_x'', JFloat (1 / 2))]"

definition step2_example :: pydict where
  "step2_example =
     [(''type'', JStr ''StepProtocol''),
      (''stimuli'', JDict
         [(''holding'', JDict [(''delay'', JInt 0), (''amp'', JInt 0), (''duration'', JInt 3000)]),
          (''step'', JList
             [JDict [(''delay'', JInt 700), (''amp'', JInt 1), (''duration'', JInt 2000),
                     (''totduration'', JInt 3000)],
              JDict [(''delay'', JInt 100), (''amp'', JInt 2), (''duration'', JInt 50),
                     (''totduration'', JInt 3000)]])]),
      (''extra_recordings'', JList [dend_recording, cai_recording])]"

text \<open>The text that \<^verbatim>\<open>add_extra_recs\<close> appends to the declarations for a new entry:
  the fragment of its type, and nothing for any other type.\<close>

definition decl_text :: "(json \<Rightarrow> string) \<Rightarrow> int \<Rightarrow> json \<Rightarrow> error + string" where
  "decl_text fmt apical e =
     bnd (getitem e ''name'') (\<lambda>name.
     bnd (getitem e ''seclist_name'') (\<lambda>seclist_name.
     bnd (getitem e ''var'') (\<lambda>var.
     bnd (getitem e ''type'') (\<lambda>ty.
       if ty = JStr ''nrnseclistcomp'' then
         bnd (getitem e ''sec_index'') (\<lambda>sec_index.
         bnd (getitem e ''comp_x'') (\<lambda>comp_x.
           Inr (hoc_nrnseclistcomp (py_str fmt name) (py_str fmt seclist_name)
                 (py_str fmt sec_index) (py_str fmt var) (py_str fmt comp_x))))
       else if ty = JStr ''somadistance'' then
         bnd (getitem e ''somadistance'') (\<lambda>somadistance.
           Inr (hoc_somadistance (py_str fmt name) (py_str fmt seclist_name)
                 (py_str fmt somadistance) (py_str fmt var)))
       else if ty = JStr ''somadistanceapic'' then
         bnd (getitem e ''somadistance'') (\<lambda>somadistance.
           Inr (hoc_somadistanceapic (py_str fmt name) (str_int apical)
                 (py_str fmt somadistance) (py_str fmt var)))
       else Inr []))))"

text \<open>Two states that differ at most in the two fields of the extra recordings.\<close>

definition same_but_extra :: "hoc_stimuli_creator \<Rightarrow> hoc_stimuli_creator \<Rightarrow> bool" where
  "same_but_extra s s' =
     (s'\<lparr>extra_recs_vars := [], extra_recs := []\<rparr> = s\<lparr>extra_recs_vars := [], extra_recs := []\<rparr>)"

text \<open>The step entries of a protocol: the value of \<^verbatim>\<open>prot["stimuli"]["step"]\<close>, a single
  record counting as a list of one.\<close>

definition step_entries :: "pydict \<Rightarrow> json list" where
  "step_entries prot =
     (case bnd (dict_get prot ''stimuli'') (\<lambda>stimuli. getitem stimuli ''step'') of
        Inr (JDict d) \<Rightarrow> [JDict d]
      | Inr v \<Rightarrow> (case iter v of Inr xs \<Rightarrow> xs | Inl e \<Rightarrow> [])
      | Inl e \<Rightarrow> [])"

definition step_count :: "pydict \<Rightarrow> nat" where
  "step_count prot = (if type_is prot ''StepProtocol'' then length (step_entries prot) else 0)"

text \<open>The protocols that get a block: StepProtocol and RampProtocol always, Vecstim and
  Netstim when synapses are enabled.\<close>

definition dispatchable :: "bool \<Rightarrow> pydict \<Rightarrow> bool" where
  "dispatchable add_synapses prot =
     (type_is prot ''StepProtocol'' \<or> type_is prot ''RampProtocol'' \<or>
      (add_synapses \<and> (type_is prot ''Vecstim'' \<or> type_is prot ''Netstim'')))"

text \<open>The method that writes the stimulus of a protocol, by its type.\<close>

definition stim_fct :: "(json \<Rightarrow> string) \<Rightarrow> pydict \<Rightarrow> hoc_stimuli_creator \<Rightarrow> pydict \<Rightarrow> error + string \<times> hoc_stimuli_creator" where
  "stim_fct fmt prot =
     (if type_is prot ''StepProtocol'' then get_step_hoc fmt
      else if type_is prot ''RampProtocol'' then static (get_ramp_hoc fmt)
      else if type_is prot ''Vecstim'' then static (get_vecstim_hoc fmt)
      else static (get_netstim_hoc fmt))"

text \<open>A block of the stimulus script: the guard on the stimulus number, the text of the
  stimulus, the closing brace.\<close>

definition stim_block :: "nat \<Rightarrow> string \<Rightarrow> string" where
  "stim_block n body = guard_open n @ ''        '' @ body @ hoc_block_close"

text \<open>The fields that the step entries must have, and the text of the steps: the entry
  at position \<open>i\<close>, counted from \<open>0\<close>, is the clamp \<^verbatim>\<open>step_stimulus_i\<close>.\<close>

definition has_step_fields :: "json list \<Rightarrow> (json \<times> json \<times> json) list \<Rightarrow> bool" where
  "has_step_fields steps ddas =
     (map (\<lambda>e. (getitem e ''duration'', getitem e ''delay'', getitem e ''amp'')) steps =
      map (\<lambda>dda. (Inr (fst dda), Inr (fst (snd dda)), Inr (snd (snd dda)))) ddas)"

fun steps_text :: "(json \<Rightarrow> string) \<Rightarrow> nat \<Rightarrow> (json \<times> json \<times> json) list \<Rightarrow> string" where
  "steps_text fmt i [] = []"
| "steps_text fmt i (dda # ddas) =
     hoc_step (str_nat i) (py_str fmt (fst dda)) (py_str fmt (fst (snd dda)))
       (py_str fmt (snd (snd dda))) @
     steps_text fmt (Suc i) ddas"

text \<open>The text of the stimulus of a protocol, which does not depend on the state: the
  text that the method of its type returns.\<close>

definition stim_text :: "(json \<Rightarrow> string) \<Rightarrow> pydict \<Rightarrow> error + string" where
  "stim_text fmt prot = bnd (stim_fct fmt prot (init_state 0) prot) (\<lambda>r. Inr (fst r))"

text \<open>What \<^verbatim>\<open>add_save_recordings_hoc\<close> needs of a protocol: its extra recordings can be
  iterated, and each has a name and a variable.\<close>

definition recorded :: "pydict \<Rightarrow> (json \<times> json) list \<Rightarrow> bool" where
  "recorded prot nvs =
     ((if dict_has prot ''extra_recordings'' then
         bnd (dict_get prot ''extra_recordings'') iter = Inr (extra_recordings_of prot)
       else True) \<and>
      has_names_vars (extra_recordings_of prot) nvs)"

text \<open>The first statement of the loop of \<^verbatim>\<open>__init__\<close>: the extra recordings of the
  protocol are added, whatever its type.\<close>

definition merge_extra :: "(json \<Rightarrow> string) \<Rightarrow> hoc_stimuli_creator \<Rightarrow> string \<times> pydict \<Rightarrow> error + hoc_stimuli_creator" where
  "merge_extra fmt s item =
     (if dict_has (snd item) ''extra_recordings'' then
        bnd (dict_get (snd item) ''extra_recordings'') (add_extra_recs fmt s)
      else Inr s)"

text \<open>A state with the four fields of the stimuli replaced.\<close>

definition with_stims :: "hoc_stimuli_creator \<Rightarrow> nat \<Rightarrow> nat \<Rightarrow> string \<Rightarrow> string \<Rightarrow> hoc_stimuli_creator" where
  "with_stims s n m st sv = s\<lparr>n_stims := n, max_steps := m, stims_hoc := st, save_recs := sv\<rparr>"

text \<open>The blocks of the two scripts, numbered upwards from the count \<open>n\<close> of the stimuli
  before them: the first block has the guard \<open>n + 1\<close>.\<close>

fun stim_blocks :: "nat \<Rightarrow> string list \<Rightarrow> string" where
  "stim_blocks n [] = []"
| "stim_blocks n (t # ts) = stim_block (Suc n) t @ stim_blocks (Suc n) ts"

fun save_blocks :: "(json \<Rightarrow> string) \<Rightarrow> string \<Rightarrow> nat \<Rightarrow> ((string \<times> pydict) \<times> (json \<times> json) list) list \<Rightarrow> string" where
  "save_blocks fmt mtype n [] = []"
| "save_blocks fmt mtype n (pr # prs) =
     save_block fmt (Suc n) mtype (fst (fst pr)) (snd pr) @ save_blocks fmt mtype (Suc n) prs"

text \<open>The protocols of a mapping that get a block, in the order of the mapping.\<close>

definition dispatched :: "bool \<Rightarrow> (string \<times> pydict) list \<Rightarrow> (string \<times> pydict) list" where
  "dispatched add_synapses prots = filter (\<lambda>p. dispatchable add_synapses (snd p)) prots"

definition apic_recording :: json where
  "apic_recording =
     JDict [(''name'', JStr ''apic1''), (''seclist_name'', JStr ''apical''), (''var'', JStr ''v''),
            (''type'', JStr ''somadistanceapic''), (''somadistance'', JInt 250)]"

definition step1_example :: pydict where
  "step1_example =
     [(''type'', JStr ''StepProtocol''),
      (''stimuli'', JDict
         [(''step'', JDict [(''delay'', JInt 700), (''amp'', JFloat (1 / 2)), (''duration'', JInt 2000),
                            (''totduration'', JInt 3000)])])]"

definition vecstim_rec_example :: pydict where
  "vecstim_rec_example =
     [(''type'', JStr ''Vecstim''),
      (''stimuli'', JDict [(''syn_start'', JInt 50), (''syn_stop'', JInt 3000),
                           (''syn_stim_seed'', JInt 7)]),
      (''extra_recordings'', JList [dend_recording, apic_recording])]"

definition example_protocols :: "(string \<times> pydict) list" where
  "example_protocols =
     [(''Step_200'', step2_example),
      (''Rin'', [(''type'', JStr ''RinProtocol'')]),
      (''Ramp'', ramp_example),
      (''Vec'', vecstim_rec_example),
      (''Step_150'', step1_example),
      (''Net'', netstim_example)]"

text \<open>What the construction gives for the sample mapping with synapses enabled, the
  cell type \<open>L5PC\<close> and no apical point: the texts of the five stimuli, the state after
  the extra recordings alone, and the final state.\<close>

definition example_texts :: "string list" where
  "example_texts =
     [hoc_holding ''3000'' ''0'' ''0'' @ hoc_step ''0'' ''2000'' ''700'' ''1'' @
        hoc_step ''1'' ''50'' ''100'' ''2'' @ ''tstop=3000'',
      hoc_ramp_vectors ''10'' ''0.1'' ''20'' ''0.5'' ''50'' @ hoc_ramp_stimulus ''50'' @ ''tstop=50'',
      ''tstop=3000\<newline>cell.synapses.create_netcons (0,50,3000,0,0,0,7)'',
      hoc_step ''0'' ''2000'' ''700'' ''0.5'' @ ''tstop=3000'',
      ''tstop=3000\<newline>cell.synapses.create_netcons(1,50,3000,25,4,0,0)'']"

definition example_names_vars :: "(json \<times> json) list list" where
  "example_names_vars =
     [[(JStr ''dend1'', JStr ''v''), (JStr ''soma_cai'', JStr ''cai'')],
      [],
      [(JStr ''dend1'', JStr ''v''), (JStr ''apic1'', JStr ''v'')],
      [],
      []]"

definition example_merged :: hoc_stimuli_creator where
  "example_merged =
     \<lparr>apical_point_isec = - 1, n_stims = 0, max_steps = 0,
      reset_step_stimuli = [], init_step_stimuli = [], stims_hoc = [], save_recs = [],
      extra_recs_vars = '', dend1, soma_cai, apic1'',
      extra_recs =
        hoc_somadistance ''dend1'' ''apical'' ''100'' ''v'' @
        hoc_nrnseclistcomp ''soma_cai'' ''somatic'' ''0'' ''cai'' ''0.5'' @
        hoc_somadistanceapic ''apic1'' ''-1'' ''250'' ''v''\<rparr>"

definition example_result :: hoc_stimuli_creator where
  "example_result =
     \<lparr>apical_point_isec = - 1, n_stims = 5, max_steps = 2,
      reset_step_stimuli = hoc_reset_step ''0'' @ hoc_reset_step ''1'',
      init_step_stimuli = hoc_init_step ''0'' @ hoc_init_step ''1'',
      stims_hoc =
        (guard_open 1 @ ''        '' @ example_texts ! 0 @ hoc_block_close) @
        (guard_open 2 @ ''        '' @ example_texts ! 1 @ hoc_block_close) @
        (guard_open 3 @ ''        '' @ example_texts ! 2 @ hoc_block_close) @
        (guard_open 4 @ ''        '' @ example_texts ! 3 @ hoc_block_close) @
        (guard_open 5 @ ''        '' @ example_texts ! 4 @ hoc_block_close),
      save_recs =
        save_block str_number 1 ''L5PC'' ''Step_200''
          [(JStr ''dend1'', JStr ''v''), (JStr ''soma_cai'', JStr ''cai'')] @
        save_block str_number 2 ''L5PC'' ''Ramp'' [] @
        save_block str_number 3 ''L5PC'' ''Vec''
          [(JStr ''dend1'', JStr ''v''), (JStr ''apic1'', JStr ''v'')] @
        save_block str_number 4 ''L5PC'' ''Step_150'' [] @
        save_block str_number 5 ''L5PC'' ''Net'' [],
      extra_recs_vars = '', dend1, soma_cai, apic1'',
      extra_recs =
        hoc_somadistance ''dend1'' ''apical'' ''100'' ''v'' @
        hoc_nrnseclistcomp ''soma_cai'' ''somatic'' ''0'' ''cai'' ''0.5'' @
        hoc_somadistanceapic ''apic1'' ''-1'' ''250'' ''v''\<rparr>"

definition two_step_protocols :: "(string \<times> pydict) list" where
  "two_step_protocols = [(''Step_200'', step2_example), (''Step_150'', step1_example)]"

section \<open>Basic facts\<close>

lemma bnd_Inr [simp]: "bnd (Inr x) f = f x"
  by (simp add: bnd_def)

lemma bnd_Inl [simp]: "bnd (Inl e) f = Inl e"
  by (simp add: bnd_def)

lemma bnd_eq_Inr: "bnd m f = Inr y \<longleftrightarrow> (\<exists>x. m = Inr x \<and> f x = Inr y)"
  by (cases m) simp_all

lemma str_nat_0 [simp]: "str_nat 0 = ''0''"
  by (simp add: str_nat.simps digit_char_def)

lemma str_nat_Suc_0 [simp]: "str_nat (Suc 0) = ''1''"
  by (simp add: str_nat.simps digit_char_def)

lemma hoc_netcons_args_call:
  "hoc_netcons_args mode t0 tf itv n_spike noise seed =
     positional_call [mode, t0, tf, itv, n_spike, noise, seed]"
  by (simp add: hoc_netcons_args_def positional_call_def)


lemma hoc_save_open_trace:
  "hoc_save_open (str_nat n) mtype prot_name =
     guard_open n @ write_trace ''                '' (soma_path mtype prot_name) ''voltage'' @
     ''        ''"
  by (simp add: hoc_save_open_def guard_open_def write_trace_def soma_path_def)

lemma hoc_save_extra_trace:
  "hoc_save_extra mtype prot_name (py_str fmt (fst nv)) (py_str fmt (snd nv)) =
     save_extra_text fmt mtype prot_name nv"
  by (simp add: hoc_save_extra_def save_extra_text_def write_trace_def extra_path_def)

lemma has_names_vars_Nil [simp]: "has_names_vars [] nvs \<longleftrightarrow> nvs = []"
  by (auto simp: has_names_vars_def)

lemma has_names_vars_Cons:
  "has_names_vars (e # es) nvs \<longleftrightarrow>
     (\<exists>n v nvs'. nvs = (n, v) # nvs' \<and> getitem e ''name'' = Inr n \<and> getitem e ''var'' = Inr v \<and>
        has_names_vars es nvs')"
  by (cases nvs) (auto simp: has_names_vars_def)

lemma save_extra_rec_Inr:
  "save_extra_rec fmt mtype prot_name s e = Inr s' \<longleftrightarrow>
     (\<exists>n v. getitem e ''name'' = Inr n \<and> getitem e ''var'' = Inr v \<and>
        s' = s\<lparr>save_recs := save_recs s @ save_extra_text fmt mtype prot_name (n, v)\<rparr>)"
  unfolding save_extra_rec_def bnd_eq_Inr
  by (auto simp: hoc_save_extra_trace [where nv = "(n, v)" for n v, simplified])

lemma foldE_save_extra_rec:
  "foldE (save_extra_rec fmt mtype prot_name) s es = Inr s' \<longleftrightarrow>
     (\<exists>nvs. has_names_vars es nvs \<and>
        s' = s\<lparr>save_recs := save_recs s @
               concat (map (save_extra_text fmt mtype prot_name) nvs)\<rparr>)"
proof (induction es arbitrary: s)
  case Nil
  show ?case by auto
next
  case (Cons e es)
  show ?case
    unfolding foldE.simps bnd_eq_Inr save_extra_rec_Inr has_names_vars_Cons Cons.IH
    by (auto; force)
qed

lemma iter_extra_recordings_of:
  "dict_has prot ''extra_recordings'' \<Longrightarrow>
     bnd (dict_get prot ''extra_recordings'') iter = Inr es \<Longrightarrow> extra_recordings_of prot = es"
  by (simp add: extra_recordings_of_def)

lemma add_save_recordings_hoc_Inr:
  "add_save_recordings_hoc fmt s mtype prot_name prot = Inr s' \<longleftrightarrow>
     (\<exists>nvs. (dict_has prot ''extra_recordings'' \<longrightarrow>
               bnd (dict_get prot ''extra_recordings'') iter = Inr (extra_recordings_of prot)) \<and>
        has_names_vars (extra_recordings_of prot) nvs \<and>
        s' = s\<lparr>save_recs := save_recs s @ save_block fmt (n_stims s) mtype prot_name nvs\<rparr>)"
proof (cases "dict_has prot ''extra_recordings''")
  case False
  then show ?thesis
    by (auto simp: add_save_recordings_hoc_def Let_def extra_recordings_of_def save_block_def
        hoc_save_open_trace)
next
  case True
  show ?thesis
  proof (cases "bnd (dict_get prot ''extra_recordings'') iter")
    case (Inl e)
    then show ?thesis using True
      by (auto simp: add_save_recordings_hoc_def Let_def bnd_eq_Inr)
  next
    case (Inr es)
    then have es: "extra_recordings_of prot = es"
      using True by (simp add: extra_recordings_of_def)
    from Inr obtain recs where r: "dict_get prot ''extra_recordings'' = Inr recs" "iter recs = Inr es"
      by (auto simp: bnd_eq_Inr)
    show ?thesis
      using True r
      by (auto simp: add_save_recordings_hoc_def Let_def bnd_eq_Inr es foldE_save_extra_rec
          save_block_def hoc_save_open_trace)
  qed
qed

lemma extra_recordings_of_step2 [simp]:
  "extra_recordings_of step2_example = [dend_recording, cai_recording]"
  by (simp add: extra_recordings_of_def step2_example_def dict_has_def dict_get_def)

lemma dend_recording_name_var [simp]:
  "getitem dend_recording ''name'' = Inr (JStr ''dend1'')"
  "getitem dend_recording ''var'' = Inr (JStr ''v'')"
  by (simp_all add: dend_recording_def dict_get_def)

lemma cai_recording_name_var [simp]:
  "getitem cai_recording ''name'' = Inr (JStr ''soma_cai'')"
  "getitem cai_recording ''var'' = Inr (JStr ''cai'')"
  by (simp_all add: cai_recording_def dict_get_def)

lemma add_extra_rec_eq:
  "add_extra_rec fmt s e =
     bnd (getitem e ''name'') (\<lambda>name.
     bnd (getitem e ''seclist_name'') (\<lambda>seclist_name.
     bnd (getitem e ''var'') (\<lambda>var.
       if name_in name (split_comma_space (extra_recs_vars s)) then Inr s
       else bnd (decl_text fmt (apical_point_isec s) e) (\<lambda>frag.
         Inr (s\<lparr>extra_recs_vars := extra_recs_vars s @ '', '' @ py_str fmt name,
                 extra_recs := extra_recs s @ frag\<rparr>)))))"
proof (cases "getitem e ''name''")
  case (Inl a)
  then show ?thesis by (simp add: add_extra_rec_def)
next
  case name: (Inr name)
  show ?thesis
  proof (cases "getitem e ''seclist_name''")
    case (Inl a)
    then show ?thesis by (simp add: add_extra_rec_def name)
  next
    case sl: (Inr seclist_name)
    show ?thesis
    proof (cases "getitem e ''var''")
      case (Inl a)
      then show ?thesis by (simp add: add_extra_rec_def name sl)
    next
      case var: (Inr var)
      show ?thesis
      proof (cases "getitem e ''type''")
        case (Inl a)
        then show ?thesis by (simp add: add_extra_rec_def decl_text_def name sl var)
      next
        case ty: (Inr ty)
        show ?thesis
          by (cases "getitem e ''sec_index''"; cases "getitem e ''comp_x''";
              cases "getitem e ''somadistance''")
             (simp_all add: add_extra_rec_def decl_text_def name sl var ty Let_def)
      qed
    qed
  qed
qed

lemma foldE_append:
  "foldE f s (xs @ ys) = bnd (foldE f s xs) (\<lambda>s'. foldE f s' ys)"
  by (induction xs arbitrary: s) (auto simp: bnd_def split: sum.splits)

lemma foldE_invariant:
  assumes "foldE f s xs = Inr s'" and "P s"
    and "\<And>a x b. P a \<Longrightarrow> f a x = Inr b \<Longrightarrow> P b"
  shows "P s'"
  using assms(1,2)
proof (induction xs arbitrary: s)
  case Nil
  then show ?case by simp
next
  case (Cons x xs)
  then show ?case using assms(3) by (auto simp: bnd_eq_Inr)
qed

lemma same_but_extra_refl [simp]: "same_but_extra s s"
  by (simp add: same_but_extra_def)

lemma same_but_extra_trans:
  "same_but_extra s s' \<Longrightarrow> same_but_extra s' s'' \<Longrightarrow> same_but_extra s s''"
  by (simp add: same_but_extra_def)

lemma same_but_extra_update [simp]:
  "same_but_extra s (s\<lparr>extra_recs_vars := v, extra_recs := r\<rparr>)"
  by (simp add: same_but_extra_def)

lemma same_but_extra_fields:
  assumes "same_but_extra s s'"
  shows "apical_point_isec s' = apical_point_isec s" "n_stims s' = n_stims s"
    "max_steps s' = max_steps s" "reset_step_stimuli s' = reset_step_stimuli s"
    "init_step_stimuli s' = init_step_stimuli s" "stims_hoc s' = stims_hoc s"
    "save_recs s' = save_recs s"
proof -
  let ?a = "s'\<lparr>extra_recs_vars := [], extra_recs := []\<rparr>"
  let ?b = "s\<lparr>extra_recs_vars := [], extra_recs := []\<rparr>"
  from assms have e: "?a = ?b" by (simp add: same_but_extra_def)
  from arg_cong [OF e, of apical_point_isec] show "apical_point_isec s' = apical_point_isec s" by simp
  from arg_cong [OF e, of n_stims] show "n_stims s' = n_stims s" by simp
  from arg_cong [OF e, of max_steps] show "max_steps s' = max_steps s" by simp
  from arg_cong [OF e, of reset_step_stimuli] show "reset_step_stimuli s' = reset_step_stimuli s" by simp
  from arg_cong [OF e, of init_step_stimuli] show "init_step_stimuli s' = init_step_stimuli s" by simp
  from arg_cong [OF e, of stims_hoc] show "stims_hoc s' = stims_hoc s" by simp
  from arg_cong [OF e, of save_recs] show "save_recs s' = save_recs s" by simp
qed

lemma add_extra_rec_frame:
  "add_extra_rec fmt s e = Inr s' \<Longrightarrow> same_but_extra s s'"
  unfolding add_extra_rec_eq bnd_eq_Inr
  by (auto split: if_splits simp: bnd_eq_Inr)

lemma add_extra_recs_frame:
  assumes "add_extra_recs fmt s recs = Inr s'"
  shows "same_but_extra s s'"
proof -
  from assms obtain es where "foldE (add_extra_rec fmt) s es = Inr s'"
    by (auto simp: add_extra_recs_def bnd_eq_Inr)
  then show ?thesis
    by (rule foldE_invariant [where P = "same_but_extra s"])
       (auto intro: same_but_extra_trans add_extra_rec_frame)
qed

lemma hoc_stim_open_guard: "hoc_stim_open (str_nat n) = guard_open n @ ''        ''"
  by (simp add: hoc_stim_open_def guard_open_def)

lemma step_body_Inr:
  assumes "step_body fmt (t, s) (i, step) = Inr r"
  shows "snd r = s\<lparr>max_steps := max (max_steps s) (i + 1)\<rparr>"
proof -
  have "(if i + 1 > max_steps s then s\<lparr>max_steps := i + 1\<rparr> else s) =
        s\<lparr>max_steps := max (max_steps s) (i + 1)\<rparr>"
    by (simp add: max_def)
  with assms show ?thesis
    by (auto simp: step_body_def Let_def bnd_eq_Inr)
qed

lemma foldE_step_body:
  "foldE (step_body fmt) (t, s) (enumerate i steps) = Inr r \<Longrightarrow>
     snd r = s\<lparr>max_steps := (if steps = [] then max_steps s
                               else max (max_steps s) (i + length steps))\<rparr>"
proof (induction steps arbitrary: t s i)
  case Nil
  then show ?case by auto
next
  case (Cons x xs)
  from Cons.prems obtain r1 where
    a: "step_body fmt (t, s) (i, x) = Inr r1" and
    b: "foldE (step_body fmt) r1 (enumerate (Suc i) xs) = Inr r"
    by (auto simp: bnd_eq_Inr)
  from step_body_Inr [OF a] have s1: "snd r1 = s\<lparr>max_steps := max (max_steps s) (i + 1)\<rparr>" .
  from b have "foldE (step_body fmt) (fst r1, snd r1) (enumerate (Suc i) xs) = Inr r" by simp
  from Cons.IH [OF this] show ?case
    by (simp add: s1 max_def)
qed

lemma get_step_hoc_Inr:
  assumes "get_step_hoc fmt s prot = Inr r"
  shows "snd r = s\<lparr>max_steps := max (max_steps s) (length (step_entries prot))\<rparr>"
proof -
  from assms obtain stimuli hold sd steps acc tot where
    l: "dict_get prot ''stimuli'' = Inr stimuli" "getitem stimuli ''step'' = Inr sd"
       "(case sd of JDict d \<Rightarrow> Inr [sd] | _ \<Rightarrow> iter sd) = Inr steps"
       "foldE (step_body fmt) (hold, s) (enumerate 0 steps) = Inr acc"
       "(case steps of [] \<Rightarrow> Inl IndexError | step # _ \<Rightarrow> getitem step ''totduration'') = Inr tot"
       "snd r = snd acc"
    unfolding get_step_hoc_def bnd_eq_Inr by auto
  from l(5) have ne: "steps \<noteq> []" by (auto split: list.splits)
  from l(1-3) have "step_entries prot = steps"
    by (cases sd) (auto simp: step_entries_def)
  with foldE_step_body [OF l(4)] ne l(6) show ?thesis by simp
qed

lemma static_Inr: "static f s prot = Inr r \<Longrightarrow> snd r = s"
  by (auto simp: static_def bnd_eq_Inr)

lemma stim_fct_Inr:
  assumes "stim_fct fmt prot s prot = Inr r"
  shows "snd r = s\<lparr>max_steps := max (max_steps s) (step_count prot)\<rparr>"
proof (cases "type_is prot ''StepProtocol''")
  case True
  with assms get_step_hoc_Inr show ?thesis by (simp add: stim_fct_def step_count_def)
next
  case False
  with assms have "snd r = s" by (auto simp: stim_fct_def dest: static_Inr split: if_splits)
  with False show ?thesis by (simp add: step_count_def)
qed

lemma has_step_fields_Nil [simp]: "has_step_fields [] ddas \<longleftrightarrow> ddas = []"
  by (auto simp: has_step_fields_def)

lemma has_step_fields_Cons:
  "has_step_fields (e # es) ddas \<longleftrightarrow>
     (\<exists>du de am ddas'. ddas = (du, de, am) # ddas' \<and> getitem e ''duration'' = Inr du \<and>
        getitem e ''delay'' = Inr de \<and> getitem e ''amp'' = Inr am \<and> has_step_fields es ddas')"
  by (cases ddas) (auto simp: has_step_fields_def)

lemma has_step_fields_length: "has_step_fields es ddas \<Longrightarrow> length ddas = length es"
  unfolding has_step_fields_def by (drule arg_cong [where f = length]) simp

lemma step_body_iff:
  "step_body fmt (t, s) (i, step) = Inr r \<longleftrightarrow>
     (\<exists>du de am. getitem step ''duration'' = Inr du \<and> getitem step ''delay'' = Inr de \<and>
        getitem step ''amp'' = Inr am \<and>
        r = (t @ hoc_step (str_nat i) (py_str fmt du) (py_str fmt de) (py_str fmt am),
             s\<lparr>max_steps := max (max_steps s) (i + 1)\<rparr>))"
proof -
  have eq: "(if i + 1 > max_steps s then s\<lparr>max_steps := i + 1\<rparr> else s) =
        s\<lparr>max_steps := max (max_steps s) (i + 1)\<rparr>"
    by (simp add: max_def)
  show ?thesis
    unfolding step_body_def prod.case Let_def eq bnd_eq_Inr by auto
qed

lemma foldE_step_body_iff:
  "foldE (step_body fmt) (t, s) (enumerate i steps) = Inr r \<longleftrightarrow>
     (\<exists>ddas. has_step_fields steps ddas \<and>
        r = (t @ steps_text fmt i ddas,
             s\<lparr>max_steps := (if steps = [] then max_steps s
                               else max (max_steps s) (i + length steps))\<rparr>))"
proof (induction steps arbitrary: t s i r)
  case Nil
  show ?case by auto
next
  case (Cons x xs)
  have m: "(if xs = [] then max (max_steps s) (i + 1)
            else max (max (max_steps s) (i + 1)) (Suc i + length xs)) =
           max (max_steps s) (i + length (x # xs))"
    by (auto simp: max_def)
  show ?case (is "?L \<longleftrightarrow> ?R")
  proof
    assume ?L
    then obtain r1 where a: "step_body fmt (t, s) (i, x) = Inr r1"
      and b: "foldE (step_body fmt) r1 (enumerate (Suc i) xs) = Inr r"
      by (auto simp: bnd_eq_Inr)
    from a obtain du de am where
      f: "getitem x ''duration'' = Inr du" "getitem x ''delay'' = Inr de"
         "getitem x ''amp'' = Inr am" and
      r1: "r1 = (t @ hoc_step (str_nat i) (py_str fmt du) (py_str fmt de) (py_str fmt am),
                 s\<lparr>max_steps := max (max_steps s) (i + 1)\<rparr>)"
      unfolding step_body_iff by blast
    from b [unfolded r1 Cons.IH] obtain ddas where
      h: "has_step_fields xs ddas" and
      r: "r = ((t @ hoc_step (str_nat i) (py_str fmt du) (py_str fmt de) (py_str fmt am)) @
                 steps_text fmt (Suc i) ddas,
               s\<lparr>max_steps := max (max_steps s) (i + 1)\<rparr>
                 \<lparr>max_steps := (if xs = [] then
                      max_steps (s\<lparr>max_steps := max (max_steps s) (i + 1)\<rparr>)
                    else max (max_steps (s\<lparr>max_steps := max (max_steps s) (i + 1)\<rparr>))
                           (Suc i + length xs))\<rparr>)"
      by blast
    have "has_step_fields (x # xs) ((du, de, am) # ddas)"
      using f h by (simp add: has_step_fields_Cons)
    moreover have "r = (t @ steps_text fmt i ((du, de, am) # ddas),
        s\<lparr>max_steps := (if x # xs = [] then max_steps s
                          else max (max_steps s) (i + length (x # xs)))\<rparr>)"
      using r m by simp
    ultimately show ?R by blast
  next
    assume ?R
    then obtain ddas where h: "has_step_fields (x # xs) ddas" and
      r: "r = (t @ steps_text fmt i ddas,
               s\<lparr>max_steps := max (max_steps s) (i + length (x # xs))\<rparr>)"
      by auto
    from h obtain du de am ddas' where d: "ddas = (du, de, am) # ddas'" and
      f: "getitem x ''duration'' = Inr du" "getitem x ''delay'' = Inr de"
         "getitem x ''amp'' = Inr am" and h': "has_step_fields xs ddas'"
      unfolding has_step_fields_Cons by blast
    have a: "step_body fmt (t, s) (i, x) =
        Inr (t @ hoc_step (str_nat i) (py_str fmt du) (py_str fmt de) (py_str fmt am),
             s\<lparr>max_steps := max (max_steps s) (i + 1)\<rparr>)"
      unfolding step_body_iff using f by blast
    have b: "foldE (step_body fmt)
        (t @ hoc_step (str_nat i) (py_str fmt du) (py_str fmt de) (py_str fmt am),
         s\<lparr>max_steps := max (max_steps s) (i + 1)\<rparr>) (enumerate (Suc i) xs) = Inr r"
      unfolding Cons.IH using h' r d m by auto
    show ?L using a b by simp
  qed
qed

lemma get_step_hoc_iff:
  "get_step_hoc fmt s prot = Inr r \<longleftrightarrow>
     (\<exists>stimuli held sd steps ddas first rest tot.
        dict_get prot ''stimuli'' = Inr stimuli \<and>
        holding_hoc fmt stimuli = Inr held \<and>
        getitem stimuli ''step'' = Inr sd \<and>
        (case sd of JDict d \<Rightarrow> Inr [sd] | _ \<Rightarrow> iter sd) = Inr steps \<and>
        has_step_fields steps ddas \<and>
        steps = first # rest \<and> getitem first ''totduration'' = Inr tot \<and>
        r = (held @ steps_text fmt 0 ddas @ ''tstop='' @ py_str fmt tot,
             s\<lparr>max_steps := max (max_steps s) (length steps)\<rparr>))"
  (is "?L \<longleftrightarrow> ?R")
proof
  assume ?L
  then obtain stimuli held sd steps acc tot where
    l: "dict_get prot ''stimuli'' = Inr stimuli" "holding_hoc fmt stimuli = Inr held"
       "getitem stimuli ''step'' = Inr sd"
       "(case sd of JDict d \<Rightarrow> Inr [sd] | _ \<Rightarrow> iter sd) = Inr steps" and
    f: "foldE (step_body fmt) (held, s) (enumerate 0 steps) = Inr acc" and
    t: "(case steps of [] \<Rightarrow> Inl IndexError | step # _ \<Rightarrow> getitem step ''totduration'') = Inr tot"
    and r: "r = (fst acc @ ''tstop='' @ py_str fmt tot, snd acc)"
    unfolding get_step_hoc_def bnd_eq_Inr by auto
  from t obtain first rest where s: "steps = first # rest" "getitem first ''totduration'' = Inr tot"
    by (auto split: list.splits)
  from f obtain ddas where h: "has_step_fields steps ddas" and
    a: "acc = (held @ steps_text fmt 0 ddas, s\<lparr>max_steps := max (max_steps s) (length steps)\<rparr>)"
    unfolding foldE_step_body_iff using s by auto
  from l h s r a show ?R by auto
next
  assume ?R
  then obtain stimuli held sd steps ddas first rest tot where
    l: "dict_get prot ''stimuli'' = Inr stimuli" "holding_hoc fmt stimuli = Inr held"
       "getitem stimuli ''step'' = Inr sd"
       "(case sd of JDict d \<Rightarrow> Inr [sd] | _ \<Rightarrow> iter sd) = Inr steps" and
    h: "has_step_fields steps ddas" and
    s: "steps = first # rest" "getitem first ''totduration'' = Inr tot" and
    r: "r = (held @ steps_text fmt 0 ddas @ ''tstop='' @ py_str fmt tot,
             s\<lparr>max_steps := max (max_steps s) (length steps)\<rparr>)"
    by blast
  have f: "foldE (step_body fmt) (held, s) (enumerate 0 steps) =
      Inr (held @ steps_text fmt 0 ddas, s\<lparr>max_steps := max (max_steps s) (length steps)\<rparr>)"
    unfolding foldE_step_body_iff using h s by auto
  show ?L
    unfolding get_step_hoc_def using l f s r by simp
qed

lemma static_iff: "static f s prot = Inr r \<longleftrightarrow> (\<exists>t. f prot = Inr t \<and> r = (t, s))"
  by (auto simp: static_def bnd_eq_Inr)

lemma get_step_hoc_state:
  "get_step_hoc fmt s prot = Inr r \<longleftrightarrow>
     (\<exists>r0. get_step_hoc fmt s0 prot = Inr r0 \<and>
        r = (fst r0, s\<lparr>max_steps := max (max_steps s) (length (step_entries prot))\<rparr>))"
  (is "?L \<longleftrightarrow> ?R")
proof -
  have len: "length steps = length (step_entries prot)"
    if "dict_get prot ''stimuli'' = Inr stimuli" "getitem stimuli ''step'' = Inr sd"
       "(case sd of JDict d \<Rightarrow> Inr [sd] | _ \<Rightarrow> iter sd) = Inr steps"
    for stimuli sd steps
    using that by (cases sd) (auto simp: step_entries_def)
  show ?thesis
  proof
    assume ?L
    then obtain stimuli held sd steps ddas first rest tot where
      l: "dict_get prot ''stimuli'' = Inr stimuli" "holding_hoc fmt stimuli = Inr held"
         "getitem stimuli ''step'' = Inr sd"
         "(case sd of JDict d \<Rightarrow> Inr [sd] | _ \<Rightarrow> iter sd) = Inr steps"
         "has_step_fields steps ddas"
         "steps = first # rest" "getitem first ''totduration'' = Inr tot" and
      r: "r = (held @ steps_text fmt 0 ddas @ ''tstop='' @ py_str fmt tot,
               s\<lparr>max_steps := max (max_steps s) (length steps)\<rparr>)"
      unfolding get_step_hoc_iff by blast
    have "get_step_hoc fmt s0 prot =
        Inr (held @ steps_text fmt 0 ddas @ ''tstop='' @ py_str fmt tot,
             s0\<lparr>max_steps := max (max_steps s0) (length steps)\<rparr>)"
      unfolding get_step_hoc_iff using l by blast
    with r len [OF l(1,3,4)] show ?R by simp
  next
    assume ?R
    then obtain r0 where r0: "get_step_hoc fmt s0 prot = Inr r0" and
      r: "r = (fst r0, s\<lparr>max_steps := max (max_steps s) (length (step_entries prot))\<rparr>)"
      by blast
    from r0 obtain stimuli held sd steps ddas first rest tot where
      l: "dict_get prot ''stimuli'' = Inr stimuli" "holding_hoc fmt stimuli = Inr held"
         "getitem stimuli ''step'' = Inr sd"
         "(case sd of JDict d \<Rightarrow> Inr [sd] | _ \<Rightarrow> iter sd) = Inr steps"
         "has_step_fields steps ddas"
         "steps = first # rest" "getitem first ''totduration'' = Inr tot" and
      r0': "r0 = (held @ steps_text fmt 0 ddas @ ''tstop='' @ py_str fmt tot,
               s0\<lparr>max_steps := max (max_steps s0) (length steps)\<rparr>)"
      unfolding get_step_hoc_iff by blast
    have "get_step_hoc fmt s prot =
        Inr (held @ steps_text fmt 0 ddas @ ''tstop='' @ py_str fmt tot,
             s\<lparr>max_steps := max (max_steps s) (length steps)\<rparr>)"
      unfolding get_step_hoc_iff using l by blast
    with r r0' len [OF l(1,3,4)] show ?L by simp
  qed
qed

lemma stim_fct_iff:
  "stim_fct fmt prot s prot = Inr r \<longleftrightarrow>
     (\<exists>t. stim_text fmt prot = Inr t \<and>
        r = (t, s\<lparr>max_steps := max (max_steps s) (step_count prot)\<rparr>))"
proof (cases "type_is prot ''StepProtocol''")
  case True
  then show ?thesis
    unfolding stim_text_def bnd_eq_Inr
    by (simp add: stim_fct_def step_count_def get_step_hoc_state [of fmt s prot r "init_state 0"])
next
  case False
  then show ?thesis
    unfolding stim_text_def bnd_eq_Inr
    by (auto simp: stim_fct_def step_count_def static_iff)
qed

lemma with_stims_twice [simp]:
  "with_stims (with_stims s a b c d) n m st sv = with_stims s n m st sv"
  by (simp add: with_stims_def)

lemma with_stims_same [simp]:
  "with_stims s (n_stims s) (max_steps s) (stims_hoc s) (save_recs s) = s"
  by (simp add: with_stims_def)

lemma with_stims_fields [simp]:
  "n_stims (with_stims s n m st sv) = n" "max_steps (with_stims s n m st sv) = m"
  "stims_hoc (with_stims s n m st sv) = st" "save_recs (with_stims s n m st sv) = sv"
  "extra_recs_vars (with_stims s n m st sv) = extra_recs_vars s"
  "extra_recs (with_stims s n m st sv) = extra_recs s"
  "apical_point_isec (with_stims s n m st sv) = apical_point_isec s"
  "reset_step_stimuli (with_stims s n m st sv) = reset_step_stimuli s"
  "init_step_stimuli (with_stims s n m st sv) = init_step_stimuli s"
  by (simp_all add: with_stims_def)

lemma same_but_extra_with_stims:
  "same_but_extra s sx \<Longrightarrow> with_stims sx n m st sv =
     sx\<lparr>n_stims := n, max_steps := m, stims_hoc := st, save_recs := sv\<rparr>"
  by (simp add: with_stims_def)

lemma add_extra_rec_with_stims:
  "add_extra_rec fmt (with_stims s n m st sv) e =
     bnd (add_extra_rec fmt s e) (\<lambda>sx. Inr (with_stims sx n m st sv))"
  unfolding add_extra_rec_eq
  by (cases "getitem e ''name''"; cases "getitem e ''seclist_name''"; cases "getitem e ''var''";
      cases "decl_text fmt (apical_point_isec s) e")
     (simp_all add: with_stims_def)

lemma foldE_add_extra_rec_with_stims:
  "foldE (add_extra_rec fmt) (with_stims s n m st sv) es =
     bnd (foldE (add_extra_rec fmt) s es) (\<lambda>sx. Inr (with_stims sx n m st sv))"
proof (induction es arbitrary: s)
  case Nil
  show ?case by simp
next
  case (Cons e es)
  show ?case
    by (cases "add_extra_rec fmt s e") (simp_all add: add_extra_rec_with_stims Cons.IH)
qed

lemma merge_extra_with_stims:
  "merge_extra fmt (with_stims s n m st sv) item =
     bnd (merge_extra fmt s item) (\<lambda>sx. Inr (with_stims sx n m st sv))"
  unfolding merge_extra_def add_extra_recs_def
  by (cases "dict_get (snd item) ''extra_recordings''"; simp)
     (cases "iter (projr (dict_get (snd item) ''extra_recordings''))";
      simp add: foldE_add_extra_rec_with_stims)

lemma foldE_merge_extra_with_stims:
  "foldE (merge_extra fmt) (with_stims s n m st sv) items =
     bnd (foldE (merge_extra fmt) s items) (\<lambda>sx. Inr (with_stims sx n m st sv))"
proof (induction items arbitrary: s)
  case Nil
  show ?case by simp
next
  case (Cons e es)
  show ?case
    by (cases "merge_extra fmt s e") (simp_all add: merge_extra_with_stims Cons.IH)
qed

lemma merge_extra_frame: "merge_extra fmt s item = Inr sx \<Longrightarrow> same_but_extra s sx"
  by (auto simp: merge_extra_def bnd_eq_Inr split: if_splits dest: add_extra_recs_frame)

lemma recorded_iff:
  "recorded prot nvs \<longleftrightarrow>
     ((dict_has prot ''extra_recordings'' \<longrightarrow>
         bnd (dict_get prot ''extra_recordings'') iter = Inr (extra_recordings_of prot)) \<and>
      has_names_vars (extra_recordings_of prot) nvs)"
  by (simp add: recorded_def)

lemma get_stim_hoc_iff:
  "get_stim_hoc s (stim_fct fmt prot) prot = Inr r \<longleftrightarrow>
     (\<exists>t. stim_text fmt prot = Inr t \<and>
        r = (stim_block (n_stims s) t, s\<lparr>max_steps := max (max_steps s) (step_count prot)\<rparr>))"
  unfolding get_stim_hoc_def bnd_eq_Inr stim_fct_iff
  by (auto simp: stim_block_def hoc_stim_open_guard)

lemma add_stim_iff:
  "add_stim fmt mtype s (stim_fct fmt prot) prot_name prot = Inr s' \<longleftrightarrow>
     (\<exists>t nvs. stim_text fmt prot = Inr t \<and> recorded prot nvs \<and>
        s' = with_stims s (n_stims s + 1) (max (max_steps s) (step_count prot))
               (stims_hoc s @ stim_block (n_stims s + 1) t)
               (save_recs s @ save_block fmt (n_stims s + 1) mtype prot_name nvs))"
  (is "?L \<longleftrightarrow> ?R")
proof -
  let ?s1 = "s\<lparr>n_stims := n_stims s + 1\<rparr>"
  have upd: "(?s1\<lparr>max_steps := max (max_steps ?s1) (step_count prot)\<rparr>)
       \<lparr>stims_hoc := stims_hoc (?s1\<lparr>max_steps := max (max_steps ?s1) (step_count prot)\<rparr>) @
          stim_block (n_stims ?s1) t\<rparr>
       \<lparr>save_recs := save_recs s @ save_block fmt (n_stims s + 1) mtype prot_name nvs\<rparr> =
     with_stims s (n_stims s + 1) (max (max_steps s) (step_count prot))
               (stims_hoc s @ stim_block (n_stims s + 1) t)
               (save_recs s @ save_block fmt (n_stims s + 1) mtype prot_name nvs)" for t nvs
    by (simp add: with_stims_def)
  have L: "?L \<longleftrightarrow> (\<exists>r. get_stim_hoc ?s1 (stim_fct fmt prot) prot = Inr r \<and>
      add_save_recordings_hoc fmt ((snd r)\<lparr>stims_hoc := stims_hoc (snd r) @ fst r\<rparr>)
          mtype prot_name prot = Inr s')"
    by (simp add: add_stim_def Let_def bnd_eq_Inr)
  show ?thesis
  proof
    assume ?L
    then obtain r where g: "get_stim_hoc ?s1 (stim_fct fmt prot) prot = Inr r" and
      a: "add_save_recordings_hoc fmt ((snd r)\<lparr>stims_hoc := stims_hoc (snd r) @ fst r\<rparr>)
          mtype prot_name prot = Inr s'"
      unfolding L by blast
    from g obtain t where t: "stim_text fmt prot = Inr t" and
      r: "r = (stim_block (n_stims ?s1) t,
               ?s1\<lparr>max_steps := max (max_steps ?s1) (step_count prot)\<rparr>)"
      unfolding get_stim_hoc_iff by blast
    from a obtain nvs where n: "recorded prot nvs" and
      s': "s' = ((snd r)\<lparr>stims_hoc := stims_hoc (snd r) @ fst r\<rparr>)
         \<lparr>save_recs := save_recs ((snd r)\<lparr>stims_hoc := stims_hoc (snd r) @ fst r\<rparr>) @
            save_block fmt (n_stims ((snd r)\<lparr>stims_hoc := stims_hoc (snd r) @ fst r\<rparr>))
              mtype prot_name nvs\<rparr>"
      unfolding add_save_recordings_hoc_Inr recorded_iff by blast
    from s' have "s' = with_stims s (n_stims s + 1) (max (max_steps s) (step_count prot))
               (stims_hoc s @ stim_block (n_stims s + 1) t)
               (save_recs s @ save_block fmt (n_stims s + 1) mtype prot_name nvs)"
      unfolding r by (simp add: with_stims_def)
    with t n show ?R by blast
  next
    assume ?R
    then obtain t nvs where t: "stim_text fmt prot = Inr t" and n: "recorded prot nvs" and
      s': "s' = with_stims s (n_stims s + 1) (max (max_steps s) (step_count prot))
               (stims_hoc s @ stim_block (n_stims s + 1) t)
               (save_recs s @ save_block fmt (n_stims s + 1) mtype prot_name nvs)"
      by blast
    let ?r = "(stim_block (n_stims ?s1) t,
               ?s1\<lparr>max_steps := max (max_steps ?s1) (step_count prot)\<rparr>)"
    have g: "get_stim_hoc ?s1 (stim_fct fmt prot) prot = Inr ?r"
      unfolding get_stim_hoc_iff using t by blast
    have "add_save_recordings_hoc fmt ((snd ?r)\<lparr>stims_hoc := stims_hoc (snd ?r) @ fst ?r\<rparr>)
          mtype prot_name prot = Inr s'"
      unfolding add_save_recordings_hoc_Inr
      apply (rule exI [of _ nvs])
      using n [unfolded recorded_iff]
      apply (simp add: s' with_stims_def)
      done
    with g show ?L unfolding L by blast
  qed
qed

lemma init_body_merge:
  "init_body fmt mtype add_synapses s (prot_name, prot) =
     bnd (merge_extra fmt s (prot_name, prot)) (\<lambda>s1.
       if dispatchable add_synapses prot then
         add_stim fmt mtype s1 (stim_fct fmt prot) prot_name prot
       else Inr s1)"
proof -
  have b: "(if type_is prot ''StepProtocol'' then
           add_stim fmt mtype s1 (get_step_hoc fmt) prot_name prot
         else if type_is prot ''RampProtocol'' then
           add_stim fmt mtype s1 (static (get_ramp_hoc fmt)) prot_name prot
         else if type_is prot ''Vecstim'' \<and> add_synapses then
           add_stim fmt mtype s1 (static (get_vecstim_hoc fmt)) prot_name prot
         else if type_is prot ''Netstim'' \<and> add_synapses then
           add_stim fmt mtype s1 (static (get_netstim_hoc fmt)) prot_name prot
         else Inr s1) =
        (if dispatchable add_synapses prot then
         add_stim fmt mtype s1 (stim_fct fmt prot) prot_name prot
       else Inr s1)" for s1
    by (auto simp: dispatchable_def stim_fct_def)
  show ?thesis
    unfolding init_body_def prod.case b merge_extra_def by simp
qed

lemma init_body_iff:
  "init_body fmt mtype add_synapses s (prot_name, prot) = Inr s' \<longleftrightarrow>
     (\<exists>sx. merge_extra fmt s (prot_name, prot) = Inr sx \<and>
        (if dispatchable add_synapses prot then
           \<exists>t nvs. stim_text fmt prot = Inr t \<and> recorded prot nvs \<and>
             s' = with_stims sx (n_stims s + 1) (max (max_steps s) (step_count prot))
                    (stims_hoc s @ stim_block (n_stims s + 1) t)
                    (save_recs s @ save_block fmt (n_stims s + 1) mtype prot_name nvs)
         else s' = sx))"
proof (cases "dispatchable add_synapses prot")
  case False
  then show ?thesis unfolding init_body_merge bnd_eq_Inr by auto
next
  case True
  have fr: "add_stim fmt mtype sx (stim_fct fmt prot) prot_name prot = Inr s' \<longleftrightarrow>
      (\<exists>t nvs. stim_text fmt prot = Inr t \<and> recorded prot nvs \<and>
             s' = with_stims sx (n_stims s + 1) (max (max_steps s) (step_count prot))
                    (stims_hoc s @ stim_block (n_stims s + 1) t)
                    (save_recs s @ save_block fmt (n_stims s + 1) mtype prot_name nvs))"
    if "merge_extra fmt s (prot_name, prot) = Inr sx" for sx
  proof -
    from merge_extra_frame [OF that] have f: "n_stims sx = n_stims s"
      "max_steps sx = max_steps s" "stims_hoc sx = stims_hoc s" "save_recs sx = save_recs s"
      by (simp_all add: same_but_extra_fields)
    show ?thesis unfolding add_stim_iff f ..
  qed
  show ?thesis
    unfolding init_body_merge bnd_eq_Inr using True fr by auto
qed

lemma dispatched_Nil [simp]: "dispatched b [] = []"
  by (simp add: dispatched_def)

lemma dispatched_Cons:
  "dispatched b (p # ps) = (if dispatchable b (snd p) then p # dispatched b ps else dispatched b ps)"
  by (simp add: dispatched_def)

lemma not_dispatchable_step_count: "\<not> dispatchable b prot \<Longrightarrow> step_count prot = 0"
  by (simp add: dispatchable_def step_count_def)

lemma map_eq_map_Inr_Cons:
  "map f (x # xs) = map Inr ts \<longleftrightarrow> (\<exists>t ts'. ts = t # ts' \<and> f x = Inr t \<and> map f xs = map Inr ts')"
  by (cases ts) auto

lemma foldE_init_body_iff:
  "foldE (init_body fmt mtype add_synapses) s prots = Inr s' \<longleftrightarrow>
     (\<exists>sx texts nvss.
        foldE (merge_extra fmt) s prots = Inr sx \<and>
        map (\<lambda>p. stim_text fmt (snd p)) (dispatched add_synapses prots) = map Inr texts \<and>
        list_all2 (\<lambda>p nvs. recorded (snd p) nvs) (dispatched add_synapses prots) nvss \<and>
        s' = with_stims sx
               (n_stims s + length (dispatched add_synapses prots))
               (fold max (map (\<lambda>p. step_count (snd p)) prots) (max_steps s))
               (stims_hoc s @ stim_blocks (n_stims s) texts)
               (save_recs s @
                save_blocks fmt mtype (n_stims s) (zip (dispatched add_synapses prots) nvss)))"
proof (induction prots arbitrary: s s')
  case Nil
  show ?case by auto
next
  case (Cons p ps)
  obtain prot_name prot where p: "p = (prot_name, prot)" by (cases p)
  let ?ds = "dispatched add_synapses ps"
  show ?case (is "?L \<longleftrightarrow> ?R")
  proof (cases "dispatchable add_synapses prot")
    case False
    note nd = False
    have ds: "dispatched add_synapses (p # ps) = ?ds"
      using nd by (simp add: dispatched_Cons p)
    have sc: "step_count prot = 0" using nd by (rule not_dispatchable_step_count)
    show ?thesis
    proof
      assume ?L
      then obtain s1 where a: "init_body fmt mtype add_synapses s (prot_name, prot) = Inr s1"
        and b: "foldE (init_body fmt mtype add_synapses) s1 ps = Inr s'"
        by (auto simp: bnd_eq_Inr p)
      from a nd have m: "merge_extra fmt s (prot_name, prot) = Inr s1"
        unfolding init_body_iff by simp
      from merge_extra_frame [OF m] have f: "n_stims s1 = n_stims s"
        "max_steps s1 = max_steps s" "stims_hoc s1 = stims_hoc s" "save_recs s1 = save_recs s"
        by (simp_all add: same_but_extra_fields)
      from b [unfolded Cons.IH f] obtain sx texts nvss where
        r: "foldE (merge_extra fmt) s1 ps = Inr sx"
           "map (\<lambda>p. stim_text fmt (snd p)) ?ds = map Inr texts"
           "list_all2 (\<lambda>p nvs. recorded (snd p) nvs) ?ds nvss"
           "s' = with_stims sx (n_stims s + length ?ds)
               (fold max (map (\<lambda>p. step_count (snd p)) ps) (max_steps s))
               (stims_hoc s @ stim_blocks (n_stims s) texts)
               (save_recs s @ save_blocks fmt mtype (n_stims s) (zip ?ds nvss))"
        by blast
      have "foldE (merge_extra fmt) s (p # ps) = Inr sx"
        using m r(1) by (simp add: p)
      with r(2-4) show ?R
        unfolding ds by (simp add: p sc) blast
    next
      assume ?R
      then obtain sx texts nvss where
        r: "foldE (merge_extra fmt) s (p # ps) = Inr sx"
           "map (\<lambda>p. stim_text fmt (snd p)) ?ds = map Inr texts"
           "list_all2 (\<lambda>p nvs. recorded (snd p) nvs) ?ds nvss"
           "s' = with_stims sx (n_stims s + length ?ds)
               (fold max (map (\<lambda>p. step_count (snd p)) ps) (max_steps s))
               (stims_hoc s @ stim_blocks (n_stims s) texts)
               (save_recs s @ save_blocks fmt mtype (n_stims s) (zip ?ds nvss))"
        unfolding ds by (simp add: p sc) blast
      from r(1) obtain s1 where m: "merge_extra fmt s (prot_name, prot) = Inr s1"
        and m': "foldE (merge_extra fmt) s1 ps = Inr sx"
        by (auto simp: bnd_eq_Inr p)
      from merge_extra_frame [OF m] have f: "n_stims s1 = n_stims s"
        "max_steps s1 = max_steps s" "stims_hoc s1 = stims_hoc s" "save_recs s1 = save_recs s"
        by (simp_all add: same_but_extra_fields)
      have a: "init_body fmt mtype add_synapses s (prot_name, prot) = Inr s1"
        unfolding init_body_iff using m nd by simp
      have b: "foldE (init_body fmt mtype add_synapses) s1 ps = Inr s'"
        unfolding Cons.IH f using m' r(2-4) by blast
      from a b show ?L by (simp add: p)
    qed
  next
    case True
    note d = True
    have ds: "dispatched add_synapses (p # ps) = p # ?ds"
      using d by (simp add: dispatched_Cons p)
    let ?N = "n_stims s + 1"
    let ?M = "max (max_steps s) (step_count prot)"
    show ?thesis
    proof
      assume ?L
      then obtain s1 where a: "init_body fmt mtype add_synapses s (prot_name, prot) = Inr s1"
        and b: "foldE (init_body fmt mtype add_synapses) s1 ps = Inr s'"
        by (auto simp: bnd_eq_Inr p)
      from a d obtain sm t nvs where m: "merge_extra fmt s (prot_name, prot) = Inr sm" and
        t: "stim_text fmt prot = Inr t" and n: "recorded prot nvs" and
        s1: "s1 = with_stims sm ?N ?M (stims_hoc s @ stim_block ?N t)
                    (save_recs s @ save_block fmt ?N mtype prot_name nvs)"
        unfolding init_body_iff by auto
      from b [unfolded Cons.IH] obtain sx texts nvss where
        r: "foldE (merge_extra fmt) s1 ps = Inr sx"
           "map (\<lambda>p. stim_text fmt (snd p)) ?ds = map Inr texts"
           "list_all2 (\<lambda>p nvs. recorded (snd p) nvs) ?ds nvss"
           "s' = with_stims sx (n_stims s1 + length ?ds)
               (fold max (map (\<lambda>p. step_count (snd p)) ps) (max_steps s1))
               (stims_hoc s1 @ stim_blocks (n_stims s1) texts)
               (save_recs s1 @ save_blocks fmt mtype (n_stims s1) (zip ?ds nvss))"
        by blast
      from r(1) obtain sy where y: "foldE (merge_extra fmt) sm ps = Inr sy" and
        sx: "sx = with_stims sy ?N ?M (stims_hoc s @ stim_block ?N t)
                    (save_recs s @ save_block fmt ?N mtype prot_name nvs)"
        unfolding s1 foldE_merge_extra_with_stims bnd_eq_Inr by auto
      have 1: "foldE (merge_extra fmt) s (p # ps) = Inr sy"
        using m y by (simp add: p)
      have 2: "map (\<lambda>p. stim_text fmt (snd p)) (p # ?ds) = map Inr (t # texts)"
        using t r(2) by (simp add: p)
      have 3: "list_all2 (\<lambda>p nvs. recorded (snd p) nvs) (p # ?ds) (nvs # nvss)"
        using n r(3) by (simp add: p)
      have 4: "s' = with_stims sy (n_stims s + length (p # ?ds))
               (fold max (map (\<lambda>p. step_count (snd p)) (p # ps)) (max_steps s))
               (stims_hoc s @ stim_blocks (n_stims s) (t # texts))
               (save_recs s @ save_blocks fmt mtype (n_stims s) (zip (p # ?ds) (nvs # nvss)))"
        unfolding r(4) sx s1 by (simp add: p max.commute)
      from 1 2 3 4 show ?R unfolding ds by blast
    next
      assume ?R
      then obtain sy texts' nvss' where
        r: "foldE (merge_extra fmt) s (p # ps) = Inr sy"
           "map (\<lambda>p. stim_text fmt (snd p)) (p # ?ds) = map Inr texts'"
           "list_all2 (\<lambda>p nvs. recorded (snd p) nvs) (p # ?ds) nvss'"
           "s' = with_stims sy (n_stims s + length (p # ?ds))
               (fold max (map (\<lambda>p. step_count (snd p)) (p # ps)) (max_steps s))
               (stims_hoc s @ stim_blocks (n_stims s) texts')
               (save_recs s @ save_blocks fmt mtype (n_stims s) (zip (p # ?ds) nvss'))"
        unfolding ds by blast
      from r(2) obtain t texts where tx: "texts' = t # texts" "stim_text fmt prot = Inr t"
        "map (\<lambda>p. stim_text fmt (snd p)) ?ds = map Inr texts"
        unfolding map_eq_map_Inr_Cons by (auto simp: p)
      from r(3) obtain nvs nvss where nv: "nvss' = nvs # nvss" "recorded prot nvs"
        "list_all2 (\<lambda>p nvs. recorded (snd p) nvs) ?ds nvss"
        by (auto simp: list_all2_Cons1 p)
      from r(1) obtain sm where m: "merge_extra fmt s (prot_name, prot) = Inr sm"
        and y: "foldE (merge_extra fmt) sm ps = Inr sy"
        by (auto simp: bnd_eq_Inr p)
      let ?s1 = "with_stims sm ?N ?M (stims_hoc s @ stim_block ?N t)
                    (save_recs s @ save_block fmt ?N mtype prot_name nvs)"
      have a: "init_body fmt mtype add_synapses s (prot_name, prot) = Inr ?s1"
        unfolding init_body_iff using m d tx(2) nv(2) by auto
      have 1: "foldE (merge_extra fmt) ?s1 ps =
          Inr (with_stims sy ?N ?M (stims_hoc s @ stim_block ?N t)
                    (save_recs s @ save_block fmt ?N mtype prot_name nvs))"
        unfolding foldE_merge_extra_with_stims using y by simp
      have 4: "s' = with_stims (with_stims sy ?N ?M (stims_hoc s @ stim_block ?N t)
                    (save_recs s @ save_block fmt ?N mtype prot_name nvs))
               (n_stims ?s1 + length ?ds)
               (fold max (map (\<lambda>p. step_count (snd p)) ps) (max_steps ?s1))
               (stims_hoc ?s1 @ stim_blocks (n_stims ?s1) texts)
               (save_recs ?s1 @ save_blocks fmt mtype (n_stims ?s1) (zip ?ds nvss))"
        unfolding r(4) tx(1) nv(1) by (simp add: p max.commute)
      have b: "foldE (init_body fmt mtype add_synapses) ?s1 ps = Inr s'"
        unfolding Cons.IH using 1 tx(3) nv(3) 4 by blast
      from a b show ?L by (simp add: p)
    qed
  qed
qed

lemma fold_reset:
  "fold (\<lambda>i s. s\<lparr>reset_step_stimuli := reset_step_stimuli s @ f i\<rparr>) xs s =
     s\<lparr>reset_step_stimuli := reset_step_stimuli s @ concat (map f xs)\<rparr>"
  by (induction xs arbitrary: s) simp_all

lemma fold_init:
  "fold (\<lambda>i s. s\<lparr>init_step_stimuli := init_step_stimuli s @ f i\<rparr>) xs s =
     s\<lparr>init_step_stimuli := init_step_stimuli s @ concat (map f xs)\<rparr>"
  by (induction xs arbitrary: s) simp_all

lemma get_reset_step_eq:
  "get_reset_step s =
     s\<lparr>reset_step_stimuli := reset_step_stimuli s @
        concat (map (\<lambda>i. hoc_reset_step (str_nat i)) [0..<max (max_steps s) 1])\<rparr>"
  unfolding get_reset_step_def by (rule fold_reset)

lemma get_init_step_eq:
  "get_init_step s =
     s\<lparr>init_step_stimuli := init_step_stimuli s @
        concat (map (\<lambda>i. hoc_init_step (str_nat i)) [0..<max (max_steps s) 1])\<rparr>"
  unfolding get_init_step_def by (rule fold_init)

lemma hoc_reset_step_zero: "hoc_reset_step i = hoc_step i ''0.0'' ''0.0'' ''0.0''"
  by (simp add: hoc_reset_step_def hoc_step_def)

lemma fold_max_Max: "fold max xs (m::nat) = Max (set (m # xs))"
  by (rule Max.set_eq_fold [symmetric])

lemma upt_Suc_length:
  "[Suc n..<Suc n + length (t # ts)] = Suc n # [Suc (Suc n)..<Suc (Suc n) + length ts]"
  by (subst upt_rec) simp

lemma stim_blocks_map2:
  "stim_blocks n ts = concat (map2 stim_block [Suc n..<Suc n + length ts] ts)"
proof (induction ts arbitrary: n)
  case Nil
  show ?case by simp
next
  case (Cons t ts)
  show ?case
    unfolding upt_Suc_length by (simp add: Cons.IH)
qed

lemma save_blocks_map2:
  "save_blocks fmt mtype n prs =
     concat (map2 (\<lambda>k pr. save_block fmt k mtype (fst (fst pr)) (snd pr))
       [Suc n..<Suc n + length prs] prs)"
proof (induction prs arbitrary: n)
  case Nil
  show ?case by simp
next
  case (Cons t ts)
  show ?case
    unfolding upt_Suc_length by (simp add: Cons.IH)
qed

lemma foldE_merge_extra_frame:
  "foldE (merge_extra fmt) s prots = Inr sx \<Longrightarrow> same_but_extra s sx"
  by (rule foldE_invariant [where P = "same_but_extra s"])
     (auto intro: same_but_extra_trans merge_extra_frame)

lemma HocStimuliCreator_iff:
  "HocStimuliCreator fmt prots mtype add_synapses apical = Inr s \<longleftrightarrow>
     (\<exists>sx texts nvss.
        foldE (merge_extra fmt) (init_state apical) prots = Inr sx \<and>
        map (\<lambda>p. stim_text fmt (snd p)) (dispatched add_synapses prots) = map Inr texts \<and>
        list_all2 (\<lambda>p nvs. recorded (snd p) nvs) (dispatched add_synapses prots) nvss \<and>
        s = sx\<lparr>n_stims := length (dispatched add_synapses prots),
               max_steps := Max (set (0 # map (\<lambda>p. step_count (snd p)) prots)),
               reset_step_stimuli := concat (map (\<lambda>i. hoc_reset_step (str_nat i))
                 [0..<max (Max (set (0 # map (\<lambda>p. step_count (snd p)) prots))) 1]),
               init_step_stimuli := concat (map (\<lambda>i. hoc_init_step (str_nat i))
                 [0..<max (Max (set (0 # map (\<lambda>p. step_count (snd p)) prots))) 1]),
               stims_hoc := stim_blocks 0 texts,
               save_recs := save_blocks fmt mtype 0 (zip (dispatched add_synapses prots) nvss)\<rparr>)"
  (is "?L \<longleftrightarrow> ?R")
proof -
  let ?ds = "dispatched add_synapses prots"
  let ?M = "Max (set (0 # map (\<lambda>p. step_count (snd p)) prots))"
  have fin: "get_init_step (get_reset_step (with_stims sx (0 + length ?ds)
               (fold max (map (\<lambda>p. step_count (snd p)) prots) 0)
               ([] @ stim_blocks 0 texts)
               ([] @ save_blocks fmt mtype 0 (zip ?ds nvss)))) =
      sx\<lparr>n_stims := length ?ds, max_steps := ?M,
               reset_step_stimuli := concat (map (\<lambda>i. hoc_reset_step (str_nat i)) [0..<max ?M 1]),
               init_step_stimuli := concat (map (\<lambda>i. hoc_init_step (str_nat i)) [0..<max ?M 1]),
               stims_hoc := stim_blocks 0 texts,
               save_recs := save_blocks fmt mtype 0 (zip ?ds nvss)\<rparr>"
    if "foldE (merge_extra fmt) (init_state apical) prots = Inr sx" for sx texts nvss
  proof -
    from foldE_merge_extra_frame [OF that]
    have "reset_step_stimuli sx = []" "init_step_stimuli sx = []"
      by (simp_all add: same_but_extra_fields init_state_def)
    then show ?thesis
      by (simp add: get_reset_step_eq get_init_step_eq with_stims_def fold_max_Max)
  qed
  have L: "?L \<longleftrightarrow> (\<exists>s0. foldE (init_body fmt mtype add_synapses) (init_state apical) prots = Inr s0
      \<and> s = get_init_step (get_reset_step s0))"
    by (auto simp: HocStimuliCreator_def bnd_eq_Inr)
  have i0: "n_stims (init_state apical) = 0" "max_steps (init_state apical) = 0"
    "stims_hoc (init_state apical) = []" "save_recs (init_state apical) = []"
    by (simp_all add: init_state_def)
  show ?thesis
  proof
    assume ?L
    then obtain s0 where f: "foldE (init_body fmt mtype add_synapses) (init_state apical) prots = Inr s0"
      and s: "s = get_init_step (get_reset_step s0)"
      unfolding L by blast
    from f [unfolded foldE_init_body_iff i0] obtain sx texts nvss where
      r: "foldE (merge_extra fmt) (init_state apical) prots = Inr sx"
         "map (\<lambda>p. stim_text fmt (snd p)) ?ds = map Inr texts"
         "list_all2 (\<lambda>p nvs. recorded (snd p) nvs) ?ds nvss"
         "s0 = with_stims sx (0 + length ?ds)
               (fold max (map (\<lambda>p. step_count (snd p)) prots) 0)
               ([] @ stim_blocks 0 texts)
               ([] @ save_blocks fmt mtype 0 (zip ?ds nvss))"
      by blast
    from s r(4) fin [OF r(1)] have "s = sx\<lparr>n_stims := length ?ds, max_steps := ?M,
               reset_step_stimuli := concat (map (\<lambda>i. hoc_reset_step (str_nat i)) [0..<max ?M 1]),
               init_step_stimuli := concat (map (\<lambda>i. hoc_init_step (str_nat i)) [0..<max ?M 1]),
               stims_hoc := stim_blocks 0 texts,
               save_recs := save_blocks fmt mtype 0 (zip ?ds nvss)\<rparr>"
      by simp
    with r(1-3) show ?R by blast
  next
    assume ?R
    then obtain sx texts nvss where
      r: "foldE (merge_extra fmt) (init_state apical) prots = Inr sx"
         "map (\<lambda>p. stim_text fmt (snd p)) ?ds = map Inr texts"
         "list_all2 (\<lambda>p nvs. recorded (snd p) nvs) ?ds nvss"
         "s = sx\<lparr>n_stims := length ?ds, max_steps := ?M,
               reset_step_stimuli := concat (map (\<lambda>i. hoc_reset_step (str_nat i)) [0..<max ?M 1]),
               init_step_stimuli := concat (map (\<lambda>i. hoc_init_step (str_nat i)) [0..<max ?M 1]),
               stims_hoc := stim_blocks 0 texts,
               save_recs := save_blocks fmt mtype 0 (zip ?ds nvss)\<rparr>"
      by blast
    let ?s0 = "with_stims sx (0 + length ?ds)
               (fold max (map (\<lambda>p. step_count (snd p)) prots) 0)
               ([] @ stim_blocks 0 texts)
               ([] @ save_blocks fmt mtype 0 (zip ?ds nvss))"
    have "foldE (init_body fmt mtype add_synapses) (init_state apical) prots = Inr ?s0"
      unfolding foldE_init_body_iff i0 using r(1-3) by blast
    moreover have "s = get_init_step (get_reset_step ?s0)"
      unfolding fin [OF r(1)] r(4) ..
    ultimately show ?L unfolding L by blast
  qed
qed

lemma digit_char_inj: "a < 10 \<Longrightarrow> b < 10 \<Longrightarrow> digit_char a = digit_char b \<Longrightarrow> a = b"
  unfolding digit_char_def
  by (subst (asm) nth_eq_iff_index_eq) simp_all

lemma str_nat_small: "n < 10 \<Longrightarrow> str_nat n = [digit_char n]"
  by (simp add: str_nat.simps)

lemma str_nat_large:
  "\<not> n < 10 \<Longrightarrow> str_nat n = str_nat (n div 10) @ [digit_char (n mod 10)]"
  by (subst str_nat.simps) simp

lemma str_nat_not_Nil: "str_nat n \<noteq> []"
  by (subst str_nat.simps) simp

lemma str_nat_inj: "str_nat n = str_nat m \<Longrightarrow> n = m"
proof (induction n arbitrary: m rule: str_nat.induct)
  case (1 n)
  show ?case
  proof (cases "n < 10")
    case True
    note n = True
    show ?thesis
    proof (cases "m < 10")
      case True
      with n "1.prems" show ?thesis
        by (simp add: str_nat_small digit_char_inj)
    next
      case False
      with n "1.prems" show ?thesis
        by (simp add: str_nat_small str_nat_large str_nat_not_Nil str_nat_not_Nil [THEN not_sym])
    qed
  next
    case False
    note n = False
    show ?thesis
    proof (cases "m < 10")
      case True
      with n "1.prems" show ?thesis
        by (simp add: str_nat_small str_nat_large str_nat_not_Nil str_nat_not_Nil [THEN not_sym])
    next
      case False
      with n "1.prems" have e: "str_nat (n div 10) = str_nat (m div 10)"
        "digit_char (n mod 10) = digit_char (m mod 10)"
        by (simp_all add: str_nat_large)
      from "1.IH" [OF n e(1)] have "n div 10 = m div 10" .
      moreover from e(2) have "n mod 10 = m mod 10"
        by (rule digit_char_inj [rotated 2]) simp_all
      ultimately show ?thesis
        by (metis div_mult_mod_eq)
    qed
  qed
qed

lemma guard_open_inj: "guard_open j = guard_open k \<longleftrightarrow> j = k"
  by (auto simp: guard_open_def dest: str_nat_inj)

lemmas example_defs =
  example_protocols_def step2_example_def step1_example_def ramp_example_def
  vecstim_rec_example_def netstim_example_def dend_recording_def cai_recording_def
  apic_recording_def

lemmas eval_defs =
  dict_has_def dict_get_def py_str_def str_number_def str_int_def str_nat.simps digit_char_def
  Let_def

lemma example_merge:
  "foldE (merge_extra str_number) (init_state (- 1)) example_protocols = Inr example_merged"
  by (simp add: example_defs eval_defs merge_extra_def add_extra_recs_def add_extra_rec_def
      name_in_def split_comma_space_def init_state_def example_merged_def)

lemma example_dispatched:
  "dispatched True example_protocols =
     [(''Step_200'', step2_example), (''Ramp'', ramp_example), (''Vec'', vecstim_rec_example),
      (''Step_150'', step1_example), (''Net'', netstim_example)]"
  by (simp add: dispatched_def dispatchable_def type_is_def example_defs eval_defs)

lemma example_stim_texts:
  "map (\<lambda>p. stim_text str_number (snd p)) (dispatched True example_protocols) =
     map Inr example_texts"
  unfolding example_dispatched
  by (simp add: example_texts_def stim_text_def stim_fct_def type_is_def example_defs eval_defs
      get_step_hoc_def holding_hoc_def step_body_def enumerate_simps static_def get_ramp_hoc_def
      get_vecstim_hoc_def get_netstim_hoc_def hoc_netcons_args_def)

lemma example_recorded:
  "list_all2 (\<lambda>p nvs. recorded (snd p) nvs) (dispatched True example_protocols)
     example_names_vars"
  unfolding example_dispatched
  by (simp add: example_names_vars_def recorded_def extra_recordings_of_def has_names_vars_def
      example_defs eval_defs)

lemma example_step_counts:
  "map (\<lambda>p. step_count (snd p)) example_protocols = [2, 0, 0, 0, 1, 0]"
  by (simp add: step_count_def step_entries_def type_is_def example_defs eval_defs)

lemma HocStimuliCreator_returns:
  "(\<exists>s. HocStimuliCreator fmt prots mtype add_synapses apical = Inr s) \<longleftrightarrow>
     (\<exists>sx texts nvss.
        foldE (merge_extra fmt) (init_state apical) prots = Inr sx \<and>
        map (\<lambda>p. stim_text fmt (snd p)) (dispatched add_synapses prots) = map Inr texts \<and>
        list_all2 (\<lambda>p nvs. recorded (snd p) nvs) (dispatched add_synapses prots) nvss)"
  unfolding HocStimuliCreator_iff by blast

lemma HocStimuliCreator_steps:
  assumes "HocStimuliCreator fmt prots mtype add_synapses apical = Inr s"
  shows "max_steps s = Max (set (0 # map (\<lambda>p. step_count (snd p)) prots))"
    and "reset_step_stimuli s =
      concat (map (\<lambda>i. hoc_reset_step (str_nat i)) [0..<max (max_steps s) 1])"
    and "init_step_stimuli s =
      concat (map (\<lambda>i. hoc_init_step (str_nat i)) [0..<max (max_steps s) 1])"
proof -
  from assms obtain sx texts nvss where
    "s = sx\<lparr>n_stims := length (dispatched add_synapses prots),
               max_steps := Max (set (0 # map (\<lambda>p. step_count (snd p)) prots)),
               reset_step_stimuli := concat (map (\<lambda>i. hoc_reset_step (str_nat i))
                 [0..<max (Max (set (0 # map (\<lambda>p. step_count (snd p)) prots))) 1]),
               init_step_stimuli := concat (map (\<lambda>i. hoc_init_step (str_nat i))
                 [0..<max (Max (set (0 # map (\<lambda>p. step_count (snd p)) prots))) 1]),
               stims_hoc := stim_blocks 0 texts,
               save_recs := save_blocks fmt mtype 0 (zip (dispatched add_synapses prots) nvss)\<rparr>"
    unfolding HocStimuliCreator_iff by blast
  then show "max_steps s = Max (set (0 # map (\<lambda>p. step_count (snd p)) prots))"
    and "reset_step_stimuli s =
      concat (map (\<lambda>i. hoc_reset_step (str_nat i)) [0..<max (max_steps s) 1])"
    and "init_step_stimuli s =
      concat (map (\<lambda>i. hoc_init_step (str_nat i)) [0..<max (max_steps s) 1])"
    by simp_all
qed

lemma hoc_init_step_inj: "hoc_init_step (str_nat i) = hoc_init_step (str_nat j) \<longleftrightarrow> i = j"
  by (auto simp: hoc_init_step_def dest: str_nat_inj)

lemma two_step_returns:
  "\<exists>s. HocStimuliCreator str_number two_step_protocols ''L5PC'' False (- 1) = Inr s"
  unfolding HocStimuliCreator_returns
  apply (rule exI [of _ "(init_state (- 1))\<lparr>extra_recs_vars := '', dend1, soma_cai'',
      extra_recs := hoc_somadistance ''dend1'' ''apical'' ''100'' ''v'' @
        hoc_nrnseclistcomp ''soma_cai'' ''somatic'' ''0'' ''cai'' ''0.5''\<rparr>"])
  apply (rule exI [of _ "[example_texts ! 0, example_texts ! 3]"])
  apply (rule exI [of _ "[example_names_vars ! 0, []]"])
  apply (simp add: two_step_protocols_def dispatched_def dispatchable_def type_is_def
      example_texts_def example_names_vars_def
      step2_example_def step1_example_def dend_recording_def cai_recording_def eval_defs
      merge_extra_def add_extra_recs_def add_extra_rec_def
      name_in_def split_comma_space_def init_state_def
      stim_text_def stim_fct_def get_step_hoc_def holding_hoc_def step_body_def enumerate_simps
      recorded_def extra_recordings_of_def has_names_vars_def)
  done

lemma two_step_counts:
  "map (\<lambda>p. step_count (snd p)) two_step_protocols = [2, 1]"
  by (simp add: two_step_protocols_def step_count_def step_entries_def type_is_def
      step2_example_def step1_example_def eval_defs)

section \<open>The blocks of the stimulus script and of the recording-save script\<close>

text \<open>
  C1. The construction returns exactly when the extra recordings of all protocols can be
  merged, every dispatchable protocol (StepProtocol, RampProtocol and, with synapses
  enabled, Vecstim and Netstim) has a stimulus text, and its recordings can be written.
  The stimulus script is then one block per dispatchable protocol, in the order of the
  mapping: the \<open>k\<close>-th block is the guard on the stimulus number \<open>k\<close>, the text of the
  \<open>k\<close>-th dispatchable protocol and the closing brace, for \<open>k\<close> from \<open>1\<close> to their number,
  which is the final count. The recording-save script is the blocks of the same protocols
  with the same numbers, and each of its blocks opens with the guard of its number. Guards
  of different numbers are different texts.
\<close>

theorem dispatch_blocks:
  "(HocStimuliCreator fmt prots mtype add_synapses apical = Inr s \<longleftrightarrow>
     (\<exists>sx texts nvss.
        foldE (merge_extra fmt) (init_state apical) prots = Inr sx \<and>
        map (\<lambda>p. stim_text fmt (snd p)) (dispatched add_synapses prots) = map Inr texts \<and>
        list_all2 (\<lambda>p nvs. recorded (snd p) nvs) (dispatched add_synapses prots) nvss \<and>
        s = sx\<lparr>n_stims := length (dispatched add_synapses prots),
               max_steps := Max (set (0 # map (\<lambda>p. step_count (snd p)) prots)),
               reset_step_stimuli := concat (map (\<lambda>i. hoc_reset_step (str_nat i))
                 [0..<max (Max (set (0 # map (\<lambda>p. step_count (snd p)) prots))) 1]),
               init_step_stimuli := concat (map (\<lambda>i. hoc_init_step (str_nat i))
                 [0..<max (Max (set (0 # map (\<lambda>p. step_count (snd p)) prots))) 1]),
               stims_hoc := concat (map2 (\<lambda>k t. guard_open k @ ''        '' @ t @ hoc_block_close)
                 [1..<Suc (length (dispatched add_synapses prots))] texts),
               save_recs := concat (map2 (\<lambda>k pr. save_block fmt k mtype (fst (fst pr)) (snd pr))
                 [1..<Suc (length (dispatched add_synapses prots))]
                 (zip (dispatched add_synapses prots) nvss))\<rparr>)) \<and>
   prefix (guard_open k) (save_block fmt k mtype prot_name nvs) \<and>
   (guard_open j = guard_open k \<longleftrightarrow> j = k)"
proof (intro conjI)
  let ?ds = "dispatched add_synapses prots"
  have blocks: "stim_blocks 0 texts =
      concat (map2 (\<lambda>k t. guard_open k @ ''        '' @ t @ hoc_block_close)
                 [1..<Suc (length ?ds)] texts)"
    if "map (\<lambda>p. stim_text fmt (snd p)) ?ds = map Inr texts" for texts
  proof -
    from that have "length texts = length ?ds"
      by (metis length_map)
    moreover have "stim_block = (\<lambda>k t. guard_open k @ ''        '' @ t @ hoc_block_close)"
      by (intro ext) (simp add: stim_block_def)
    ultimately show ?thesis by (simp add: stim_blocks_map2)
  qed
  have saves: "save_blocks fmt mtype 0 (zip ?ds nvss) =
      concat (map2 (\<lambda>k pr. save_block fmt k mtype (fst (fst pr)) (snd pr))
                 [1..<Suc (length ?ds)] (zip ?ds nvss))"
    if "list_all2 (\<lambda>p nvs. recorded (snd p) nvs) ?ds nvss" for nvss
  proof -
    from that have "length nvss = length ?ds"
      by (simp add: list_all2_lengthD)
    then show ?thesis by (simp add: save_blocks_map2)
  qed
  show "HocStimuliCreator fmt prots mtype add_synapses apical = Inr s \<longleftrightarrow>
     (\<exists>sx texts nvss.
        foldE (merge_extra fmt) (init_state apical) prots = Inr sx \<and>
        map (\<lambda>p. stim_text fmt (snd p)) ?ds = map Inr texts \<and>
        list_all2 (\<lambda>p nvs. recorded (snd p) nvs) ?ds nvss \<and>
        s = sx\<lparr>n_stims := length ?ds,
               max_steps := Max (set (0 # map (\<lambda>p. step_count (snd p)) prots)),
               reset_step_stimuli := concat (map (\<lambda>i. hoc_reset_step (str_nat i))
                 [0..<max (Max (set (0 # map (\<lambda>p. step_count (snd p)) prots))) 1]),
               init_step_stimuli := concat (map (\<lambda>i. hoc_init_step (str_nat i))
                 [0..<max (Max (set (0 # map (\<lambda>p. step_count (snd p)) prots))) 1]),
               stims_hoc := concat (map2 (\<lambda>k t. guard_open k @ ''        '' @ t @ hoc_block_close)
                 [1..<Suc (length ?ds)] texts),
               save_recs := concat (map2 (\<lambda>k pr. save_block fmt k mtype (fst (fst pr)) (snd pr))
                 [1..<Suc (length ?ds)] (zip ?ds nvss))\<rparr>)"
    unfolding HocStimuliCreator_iff
    apply (rule iffI)
     apply (elim exE conjE)
    subgoal for sx texts nvss
      apply (rule exI [of _ sx], rule exI [of _ texts], rule exI [of _ nvss])
      apply (simp add: blocks saves)
      done
    apply (elim exE conjE)
    subgoal for sx texts nvss
      apply (rule exI [of _ sx], rule exI [of _ texts], rule exI [of _ nvss])
      apply (simp add: blocks saves)
      done
    done
  show "prefix (guard_open k) (save_block fmt k mtype prot_name nvs)"
    by (simp add: save_block_def)
  show "guard_open j = guard_open k \<longleftrightarrow> j = k"
    by (rule guard_open_inj)
qed

theorem dispatch_blocks_witness:
  "HocStimuliCreator str_number example_protocols ''L5PC'' True (- 1) = Inr example_result"
  apply (rule dispatch_blocks [THEN conjunct1, THEN iffD2])
  apply (rule exI [of _ example_merged], rule exI [of _ example_texts],
      rule exI [of _ example_names_vars])
  apply (simp only: example_merge example_stim_texts example_recorded example_step_counts
      simp_thms)
  apply (simp add: example_dispatched example_result_def example_merged_def example_texts_def
      example_names_vars_def upt_rec eval_nat_numeral)
  done

section \<open>The ramp\<close>




section \<open>The synapse directives\<close>

text \<open>
  C6. \<^verbatim>\<open>get_vecstim_hoc\<close> returns exactly when the protocol has \<^verbatim>\<open>stimuli\<close> with
  \<^verbatim>\<open>syn_start\<close>, \<^verbatim>\<open>syn_stop\<close> and \<^verbatim>\<open>syn_stim_seed\<close>, and then its directive is the
  call \<^verbatim>\<open>cell.synapses.create_netcons\<close> with seven positional arguments in the order mode,
  start, stop, interval, spike count, noise, seed: mode, interval, spike count and noise
  are \<open>0\<close> and the seed is the protocol's \<^verbatim>\<open>syn_stim_seed\<close>. \<^verbatim>\<open>get_netstim_hoc\<close>
  returns exactly when the protocol has \<^verbatim>\<open>stimuli\<close> with \<^verbatim>\<open>syn_start\<close>,
  \<^verbatim>\<open>syn_stop\<close>, \<^verbatim>\<open>syn_interval\<close>, \<^verbatim>\<open>syn_nmb_of_spikes\<close> and \<^verbatim>\<open>syn_noise\<close>, and
  then its directive is the same call with mode \<open>1\<close>, the interval, spike count and noise
  of the protocol, and the seed \<open>0\<close>. Each argument is the text Python prints for the
  value. (The Vecstim text has a blank before the parenthesis, the Netstim text has none.)
\<close>

theorem synapse_directive_fields:
  "(get_vecstim_hoc fmt prot = Inr hoc \<longleftrightarrow>
      (\<exists>stim start stop seed.
         dict_get prot ''stimuli'' = Inr stim \<and> getitem stim ''syn_start'' = Inr start \<and>
         getitem stim ''syn_stop'' = Inr stop \<and> getitem stim ''syn_stim_seed'' = Inr seed \<and>
         hoc = ''tstop='' @ py_str fmt stop @ ''\<newline>'' @ ''cell.synapses.create_netcons '' @
           positional_call [''0'', py_str fmt start, py_str fmt stop, ''0'', ''0'', ''0'',
             py_str fmt seed])) \<and>
   (get_netstim_hoc fmt prot' = Inr hoc' \<longleftrightarrow>
      (\<exists>stim start stop interval spikes noise.
         dict_get prot' ''stimuli'' = Inr stim \<and> getitem stim ''syn_start'' = Inr start \<and>
         getitem stim ''syn_stop'' = Inr stop \<and> getitem stim ''syn_interval'' = Inr interval \<and>
         getitem stim ''syn_nmb_of_spikes'' = Inr spikes \<and> getitem stim ''syn_noise'' = Inr noise \<and>
         hoc' = ''tstop='' @ py_str fmt stop @ ''\<newline>'' @ ''cell.synapses.create_netcons'' @
           positional_call [''1'', py_str fmt start, py_str fmt stop, py_str fmt interval,
             py_str fmt spikes, py_str fmt noise, ''0'']))"
proof (rule conjI)
  show "get_vecstim_hoc fmt prot = Inr hoc \<longleftrightarrow>
      (\<exists>stim start stop seed.
         dict_get prot ''stimuli'' = Inr stim \<and> getitem stim ''syn_start'' = Inr start \<and>
         getitem stim ''syn_stop'' = Inr stop \<and> getitem stim ''syn_stim_seed'' = Inr seed \<and>
         hoc = ''tstop='' @ py_str fmt stop @ ''\<newline>'' @ ''cell.synapses.create_netcons '' @
           positional_call [''0'', py_str fmt start, py_str fmt stop, ''0'', ''0'', ''0'',
             py_str fmt seed])"
    unfolding get_vecstim_hoc_def bnd_eq_Inr hoc_netcons_args_call
    by (simp only: str_nat_0 sum.inject) blast
  show "get_netstim_hoc fmt prot' = Inr hoc' \<longleftrightarrow>
      (\<exists>stim start stop interval spikes noise.
         dict_get prot' ''stimuli'' = Inr stim \<and> getitem stim ''syn_start'' = Inr start \<and>
         getitem stim ''syn_stop'' = Inr stop \<and> getitem stim ''syn_interval'' = Inr interval \<and>
         getitem stim ''syn_nmb_of_spikes'' = Inr spikes \<and> getitem stim ''syn_noise'' = Inr noise \<and>
         hoc' = ''tstop='' @ py_str fmt stop @ ''\<newline>'' @ ''cell.synapses.create_netcons'' @
           positional_call [''1'', py_str fmt start, py_str fmt stop, py_str fmt interval,
             py_str fmt spikes, py_str fmt noise, ''0''])"
    unfolding get_netstim_hoc_def bnd_eq_Inr hoc_netcons_args_call
    by (simp only: str_nat_0 str_nat_Suc_0 One_nat_def sum.inject) blast
qed

theorem synapse_directive_fields_witness:
  "get_vecstim_hoc str_number vecstim_example =
     Inr ''tstop=3000\<newline>cell.synapses.create_netcons (0,50,3000,0,0,0,7)'' \<and>
   get_netstim_hoc str_number netstim_example =
     Inr ''tstop=3000\<newline>cell.synapses.create_netcons(1,50,3000,25,4,0,0)''"
proof -
  note inst = synapse_directive_fields [of str_number vecstim_example _ netstim_example]
  have fmt: "py_str str_number (JInt 50) = ''50''" "py_str str_number (JInt 3000) = ''3000''"
    "py_str str_number (JInt 7) = ''7''" "py_str str_number (JInt 25) = ''25''"
    "py_str str_number (JInt 4) = ''4''" "py_str str_number (JInt 0) = ''0''"
    by (simp_all add: py_str_def str_number_def str_int_def str_nat.simps digit_char_def)
  have "get_vecstim_hoc str_number vecstim_example =
     Inr ''tstop=3000\<newline>cell.synapses.create_netcons (0,50,3000,0,0,0,7)''"
    apply (rule inst [THEN conjunct1, THEN iffD2])
    apply (rule exI [of _ "JDict [(''syn_start'', JInt 50), (''syn_stop'', JInt 3000),
                           (''syn_stim_seed'', JInt 7)]"])
    apply (rule exI [of _ "JInt 50"], rule exI [of _ "JInt 3000"], rule exI [of _ "JInt 7"])
    apply (simp add: vecstim_example_def dict_get_def fmt positional_call_def)
    done
  moreover have "get_netstim_hoc str_number netstim_example =
     Inr ''tstop=3000\<newline>cell.synapses.create_netcons(1,50,3000,25,4,0,0)''"
    apply (rule inst [THEN conjunct2, THEN iffD2])
    apply (rule exI [of _ "JDict [(''syn_start'', JInt 50), (''syn_stop'', JInt 3000),
                           (''syn_interval'', JInt 25), (''syn_nmb_of_spikes'', JInt 4),
                           (''syn_noise'', JInt 0)]"])
    apply (rule exI [of _ "JInt 50"], rule exI [of _ "JInt 3000"], rule exI [of _ "JInt 25"],
        rule exI [of _ "JInt 4"], rule exI [of _ "JInt 0"])
    apply (simp add: netstim_example_def dict_get_def fmt positional_call_def)
    done
  ultimately show ?thesis by simp
qed

section \<open>The recordings written for a protocol\<close>

text \<open>
  C7. \<^verbatim>\<open>add_save_recordings_hoc\<close> returns exactly when the protocol's
  \<^verbatim>\<open>extra_recordings\<close>, if it has any, can be iterated and each entry has a \<^verbatim>\<open>var\<close>
  and a \<^verbatim>\<open>name\<close>. It then appends one block to the recording-save script and changes
  nothing else: the guard on the current stimulus number, the write of the soma trace to
  \<^verbatim>\<open>hoc_recordings/{mtype}.{prot_name}.soma.v.dat\<close>, then, for each entry in order, one
  write to \<^verbatim>\<open>hoc_recordings/{mtype}.{prot_name}.{name}.{var}.dat\<close>, and the closing brace.
\<close>

theorem recording_paths:
  "add_save_recordings_hoc fmt s mtype prot_name prot = Inr s' \<longleftrightarrow>
     (\<exists>entries nvs.
        (if dict_has prot ''extra_recordings'' then
           \<exists>recs. dict_get prot ''extra_recordings'' = Inr recs \<and> iter recs = Inr entries
         else entries = []) \<and>
        map (\<lambda>e. (getitem e ''name'', getitem e ''var'')) entries =
          map (\<lambda>nv. (Inr (fst nv), Inr (snd nv))) nvs \<and>
        s' = s\<lparr>save_recs := save_recs s @ guard_open (n_stims s) @
             write_trace ''                ''
               (''hoc_recordings/'' @ mtype @ ''.'' @ prot_name @ ''.soma.v.dat'') ''voltage'' @
             ''        '' @
             concat (map (\<lambda>nv. ''\<newline>'' @
               write_trace ''                    ''
                 (''hoc_recordings/'' @ mtype @ ''.'' @ prot_name @ ''.'' @ py_str fmt (fst nv) @
                  ''.'' @ py_str fmt (snd nv) @ ''.dat'')
                 (py_str fmt (fst nv)) @
               ''                '') nvs) @
             hoc_block_close\<rparr>)"
proof -
  have etext: "save_extra_text fmt mtype prot_name = (\<lambda>nv. ''\<newline>'' @
               write_trace ''                    ''
                 (''hoc_recordings/'' @ mtype @ ''.'' @ prot_name @ ''.'' @ py_str fmt (fst nv) @
                  ''.'' @ py_str fmt (snd nv) @ ''.dat'')
                 (py_str fmt (fst nv)) @
               ''                '')"
    by (rule ext) (simp add: save_extra_text_def extra_path_def)
  have blk: "\<And>nvs. guard_open (n_stims s) @
             write_trace ''                ''
               (''hoc_recordings/'' @ mtype @ ''.'' @ prot_name @ ''.soma.v.dat'') ''voltage'' @
             ''        '' @
             concat (map (\<lambda>nv. ''\<newline>'' @
               write_trace ''                    ''
                 (''hoc_recordings/'' @ mtype @ ''.'' @ prot_name @ ''.'' @ py_str fmt (fst nv) @
                  ''.'' @ py_str fmt (snd nv) @ ''.dat'')
                 (py_str fmt (fst nv)) @
               ''                '') nvs) @
             hoc_block_close = save_block fmt (n_stims s) mtype prot_name nvs"
    by (simp add: save_block_def soma_path_def etext)
  have nv: "\<And>entries nvs. (map (\<lambda>e. (getitem e ''name'', getitem e ''var'')) entries =
          map (\<lambda>nv. (Inr (fst nv), Inr (snd nv))) nvs) = has_names_vars entries nvs"
    by (simp add: has_names_vars_def)
  show ?thesis
    unfolding blk nv
  proof (cases "dict_has prot ''extra_recordings''")
    case False
    then show "add_save_recordings_hoc fmt s mtype prot_name prot = Inr s' \<longleftrightarrow>
     (\<exists>entries nvs.
        (if dict_has prot ''extra_recordings'' then
           \<exists>recs. dict_get prot ''extra_recordings'' = Inr recs \<and> iter recs = Inr entries
         else entries = []) \<and>
        has_names_vars entries nvs \<and>
        s' = s\<lparr>save_recs := save_recs s @ save_block fmt (n_stims s) mtype prot_name nvs\<rparr>)"
      unfolding add_save_recordings_hoc_Inr
      by (auto simp: extra_recordings_of_def)
  next
    case True
    have "(\<exists>nvs. bnd (dict_get prot ''extra_recordings'') iter = Inr (extra_recordings_of prot) \<and>
        has_names_vars (extra_recordings_of prot) nvs \<and>
        s' = s\<lparr>save_recs := save_recs s @ save_block fmt (n_stims s) mtype prot_name nvs\<rparr>) \<longleftrightarrow>
      (\<exists>entries nvs.
        (\<exists>recs. dict_get prot ''extra_recordings'' = Inr recs \<and> iter recs = Inr entries) \<and>
        has_names_vars entries nvs \<and>
        s' = s\<lparr>save_recs := save_recs s @ save_block fmt (n_stims s) mtype prot_name nvs\<rparr>)"
      using True
      by (cases "bnd (dict_get prot ''extra_recordings'') iter")
         (auto simp: bnd_eq_Inr extra_recordings_of_def)
    with True show "add_save_recordings_hoc fmt s mtype prot_name prot = Inr s' \<longleftrightarrow>
     (\<exists>entries nvs.
        (if dict_has prot ''extra_recordings'' then
           \<exists>recs. dict_get prot ''extra_recordings'' = Inr recs \<and> iter recs = Inr entries
         else entries = []) \<and>
        has_names_vars entries nvs \<and>
        s' = s\<lparr>save_recs := save_recs s @ save_block fmt (n_stims s) mtype prot_name nvs\<rparr>)"
      unfolding add_save_recordings_hoc_Inr by simp
  qed
qed

theorem recording_paths_witness:
  "add_save_recordings_hoc str_number ((init_state (- 1))\<lparr>n_stims := 1\<rparr>) ''L5PC'' ''Step_200''
       step2_example =
     Inr ((init_state (- 1))\<lparr>n_stims := 1, save_recs := guard_open 1 @
           write_trace ''                '' ''hoc_recordings/L5PC.Step_200.soma.v.dat'' ''voltage'' @
           ''        '' @
           ''\<newline>'' @
           write_trace ''                    '' ''hoc_recordings/L5PC.Step_200.dend1.v.dat'' ''dend1'' @
           ''                '' @
           ''\<newline>'' @
           write_trace ''                    '' ''hoc_recordings/L5PC.Step_200.soma_cai.cai.dat''
             ''soma_cai'' @
           ''                '' @
           hoc_block_close\<rparr>)"
  apply (rule recording_paths [THEN iffD2])
  apply (rule exI [of _ "[dend_recording, cai_recording]"])
  apply (rule exI [of _ "[(JStr ''dend1'', JStr ''v''), (JStr ''soma_cai'', JStr ''cai'')]"])
  apply (simp add: step2_example_def dict_has_def dict_get_def init_state_def py_str_def)
  done

section \<open>The step objects that are declared and reset\<close>

text \<open>
  C8. \<^verbatim>\<open>get_reset_step\<close> appends, for each \<open>i\<close> below \<open>max(max_steps, 1)\<close> in order,
  the creation of \<^verbatim>\<open>step_stimulus_i\<close> with duration, delay and amplitude \<open>0.0\<close> and its
  attachment to the soma (the text of a step with these three values);
  \<^verbatim>\<open>get_init_step\<close> appends, for the same \<open>i\<close>, the declaration
  \<^verbatim>\<open>objref step_stimulus_i\<close>, and different \<open>i\<close> give different declarations. After a
  construction that returns, the two fragments are exactly these, from empty, with
  \<^verbatim>\<open>max_steps\<close> the largest number of step entries of a StepProtocol (\<open>0\<close> when there
  is none, so one object). The construction returns exactly when the extra recordings
  merge and every dispatchable protocol has its stimulus text and its recordings.
\<close>

theorem step_reset_init_fragments:
  "get_reset_step s0 =
     s0\<lparr>reset_step_stimuli := reset_step_stimuli s0 @
        concat (map (\<lambda>i. hoc_step (str_nat i) ''0.0'' ''0.0'' ''0.0'')
          [0..<max (max_steps s0) 1])\<rparr> \<and>
   get_init_step s0 =
     s0\<lparr>init_step_stimuli := init_step_stimuli s0 @
        concat (map (\<lambda>i. ''\<newline>'' @ ''                objref step_stimulus_'' @ str_nat i @
                         ''\<newline>'' @ ''            '')
          [0..<max (max_steps s0) 1])\<rparr> \<and>
   (hoc_init_step (str_nat i) = hoc_init_step (str_nat j) \<longleftrightarrow> i = j) \<and>
   (HocStimuliCreator fmt prots mtype add_synapses apical = Inr s \<longrightarrow>
      max_steps s = Max (set (0 # map (\<lambda>p. step_count (snd p)) prots)) \<and>
      reset_step_stimuli s =
        concat (map (\<lambda>i. hoc_step (str_nat i) ''0.0'' ''0.0'' ''0.0'')
          [0..<max (max_steps s) 1]) \<and>
      init_step_stimuli s =
        concat (map (\<lambda>i. ''\<newline>'' @ ''                objref step_stimulus_'' @ str_nat i @
                         ''\<newline>'' @ ''            '')
          [0..<max (max_steps s) 1])) \<and>
   ((\<exists>s. HocStimuliCreator fmt prots mtype add_synapses apical = Inr s) \<longleftrightarrow>
     (\<exists>sx texts nvss.
        foldE (merge_extra fmt) (init_state apical) prots = Inr sx \<and>
        map (\<lambda>p. stim_text fmt (snd p)) (dispatched add_synapses prots) = map Inr texts \<and>
        list_all2 (\<lambda>p nvs. recorded (snd p) nvs) (dispatched add_synapses prots) nvss))"
proof -
  have r: "(\<lambda>i. hoc_step (str_nat i) ''0.0'' ''0.0'' ''0.0'') = (\<lambda>i. hoc_reset_step (str_nat i))"
    by (simp add: hoc_reset_step_zero)
  have i: "(\<lambda>i. ''\<newline>'' @ ''                objref step_stimulus_'' @ str_nat i @
                         ''\<newline>'' @ ''            '') = (\<lambda>i. hoc_init_step (str_nat i))"
    by (simp add: hoc_init_step_def)
  show ?thesis
    unfolding r i
    by (intro conjI impI get_reset_step_eq get_init_step_eq hoc_init_step_inj
        HocStimuliCreator_returns HocStimuliCreator_steps)
qed

theorem step_reset_init_fragments_witness:
  "(case HocStimuliCreator str_number two_step_protocols ''L5PC'' False (- 1) of
      Inr s \<Rightarrow>
        reset_step_stimuli s =
          hoc_step ''0'' ''0.0'' ''0.0'' ''0.0'' @ hoc_step ''1'' ''0.0'' ''0.0'' ''0.0'' \<and>
        init_step_stimuli s =
          (''\<newline>'' @ ''                objref step_stimulus_0'' @ ''\<newline>'' @ ''            '') @
          (''\<newline>'' @ ''                objref step_stimulus_1'' @ ''\<newline>'' @ ''            '')
    | Inl e \<Rightarrow> False) \<and>
   (case HocStimuliCreator str_number [] ''L5PC'' False (- 1) of
      Inr s \<Rightarrow>
        reset_step_stimuli s = hoc_step ''0'' ''0.0'' ''0.0'' ''0.0'' \<and>
        init_step_stimuli s =
          ''\<newline>'' @ ''                objref step_stimulus_0'' @ ''\<newline>'' @ ''            ''
    | Inl e \<Rightarrow> False)"
proof -
  note inst = step_reset_init_fragments [where fmt = str_number and mtype = "''L5PC''" and
      add_synapses = False and apical = "- 1"]
  obtain s where s: "HocStimuliCreator str_number two_step_protocols ''L5PC'' False (- 1) = Inr s"
    using two_step_returns by blast
  from inst [where prots = two_step_protocols and s = s, THEN conjunct2, THEN conjunct2, THEN conjunct2,
      THEN conjunct1, rule_format, OF s]
  have a: "reset_step_stimuli s =
          hoc_step ''0'' ''0.0'' ''0.0'' ''0.0'' @ hoc_step ''1'' ''0.0'' ''0.0'' ''0.0''"
    "init_step_stimuli s =
          (''\<newline>'' @ ''                objref step_stimulus_0'' @ ''\<newline>'' @ ''            '') @
          (''\<newline>'' @ ''                objref step_stimulus_1'' @ ''\<newline>'' @ ''            '')"
    by (simp_all add: two_step_counts upt_rec str_nat.simps digit_char_def)
  have "\<exists>s. HocStimuliCreator str_number [] ''L5PC'' False (- 1) = Inr s"
    unfolding inst [where prots = "[]", THEN conjunct2, THEN conjunct2, THEN conjunct2, THEN conjunct2]
    by (simp add: dispatched_def)
  then obtain s' where s': "HocStimuliCreator str_number [] ''L5PC'' False (- 1) = Inr s'"
    by blast
  from inst [where prots = "[]" and s = s', THEN conjunct2, THEN conjunct2, THEN conjunct2,
      THEN conjunct1, rule_format, OF s']
  have b: "reset_step_stimuli s' = hoc_step ''0'' ''0.0'' ''0.0'' ''0.0''"
    "init_step_stimuli s' =
          ''\<newline>'' @ ''                objref step_stimulus_0'' @ ''\<newline>'' @ ''            ''"
    by (simp_all add: upt_rec str_nat.simps digit_char_def)
  show ?thesis
    unfolding s s' using a b by simp
qed

end
